theory Spec2Isabelle
  imports Complex_Main "HOL-Library.Sublist" "HOL-Library.AList" "HOL-Library.Multiset"
begin

section \<open>Numeric values\<close>

text \<open>
  The planner computes with IEEE floating point numbers. Losses and returns may be
  infinite or NaN, and the driver tests for that, so they are modelled by a datatype with
  the three special values; a finite float is modelled by a real number (rounding and
  overflow are not modelled). Policy parameters and action values are modelled by reals.
\<close>

datatype float = Finite real | PosInf | NegInf | NaN

fun np_isfinite :: "float \<Rightarrow> bool" where
  "np_isfinite (Finite x) = True"
| "np_isfinite PosInf = False"
| "np_isfinite NegInf = False"
| "np_isfinite NaN = False"

fun fneg :: "float \<Rightarrow> float" where
  "fneg (Finite x) = Finite (- x)"
| "fneg PosInf = NegInf"
| "fneg NegInf = PosInf"
| "fneg NaN = NaN"

fun fadd :: "float \<Rightarrow> float \<Rightarrow> float" where
  "fadd NaN y = NaN"
| "fadd x NaN = NaN"
| "fadd (Finite x) (Finite y) = Finite (x + y)"
| "fadd (Finite x) PosInf = PosInf"
| "fadd (Finite x) NegInf = NegInf"
| "fadd PosInf (Finite y) = PosInf"
| "fadd NegInf (Finite y) = NegInf"
| "fadd PosInf PosInf = PosInf"
| "fadd NegInf NegInf = NegInf"
| "fadd PosInf NegInf = NaN"
| "fadd NegInf PosInf = NaN"

definition fsub :: "float \<Rightarrow> float \<Rightarrow> float" where
  "fsub x y = fadd x (fneg y)"

text \<open>Division of a float by a positive count (the length of a non-empty window).\<close>

fun fdiv_count :: "float \<Rightarrow> nat \<Rightarrow> float" where
  "fdiv_count (Finite x) n = Finite (x / real n)"
| "fdiv_count PosInf n = PosInf"
| "fdiv_count NegInf n = NegInf"
| "fdiv_count NaN n = NaN"

text \<open>The comparison \<open>x < y\<close> of floats: false as soon as one side is NaN.\<close>

fun fless :: "float \<Rightarrow> float \<Rightarrow> bool" where
  "fless NaN y = False"
| "fless x NaN = False"
| "fless (Finite x) (Finite y) = (x < y)"
| "fless (Finite x) PosInf = True"
| "fless (Finite x) NegInf = False"
| "fless PosInf y = False"
| "fless NegInf (Finite y) = True"
| "fless NegInf PosInf = True"
| "fless NegInf NegInf = False"

datatype error =
    ValueError string
  | IndexError
  | KeyError string
  | ZeroDivisionError
  | TypeError
  | AttributeError string
  | RDDLNotImplementedError
  | RDDLTypeError string

section \<open>The straight-line plan\<close>

subsection \<open>What the plan reads from the model\<close>

text \<open>
  The default value of a fluent in the lifted model is a scalar or the list of the
  defaults of its groundings. \<open>np.size\<close> of a scalar is 1.
\<close>

datatype pvalue = BoolV bool | IntV int | RealV real

fun truthy :: "pvalue \<Rightarrow> bool" where
  "truthy (BoolV b) = b"
| "truthy (IntV i) = (i \<noteq> 0)"
| "truthy (RealV r) = (r \<noteq> 0)"

datatype fluent_default = Scalar pvalue | Values "pvalue list"

fun np_size :: "fluent_default \<Rightarrow> nat" where
  "np_size (Scalar v) = 1"
| "np_size (Values vs) = length vs"

text \<open>
  The fields of the lifted model that \<open>JaxStraightLinePlan.compile\<close> uses. The ranges and
  types are dictionaries over all variables of the model, looked up at action fluents
  only, so they are total functions here; \<open>action_bounds\<close> is the box of an action fluent
  after the user's bounds are taken into account, \<open>None\<close> standing for an infinite bound.
\<close>

record rddl_model =
  variable_ranges :: "string \<Rightarrow> string"
  action_fluents :: "(string \<times> fluent_default) list"
  max_allowed_actions :: int
  action_bounds :: "string \<Rightarrow> real option \<times> real option"

record slp_config =
  wrap_sigmoid :: bool
  min_action_prob :: real
  wrap_non_bool :: bool
  wrap_softmax :: bool
  use_new_projection :: bool
  max_constraint_iter :: int

text \<open>
  The variables of \<open>compile\<close> that its nested functions close over: the configuration
  of the plan, and \<open>ranges\<close>, \<open>noop\<close> (as a truth value, the way \<open>if noop[var]\<close> reads it),
  \<open>allowed_actions\<close>, \<open>bounds\<close> and \<open>horizon\<close>.
\<close>

record slp_env = slp_config +
  ranges :: "string \<Rightarrow> string"
  noop :: "string \<Rightarrow> bool"
  allowed_actions :: int
  bounds :: "string \<Rightarrow> real option \<times> real option"
  horizon :: nat

text \<open>
  Parameters: a dictionary from the name of an action fluent to an array of shape
  \<open>(horizon, ...)\<close>, here the list over the time steps of the flattened arrays. The
  dictionary is an association list in insertion order.
\<close>

type_synonym step_params = "(string \<times> real list) list"

type_synonym plan_params = "(string \<times> real list list) list"

type_synonym hyperparams = "string \<Rightarrow> real"

subsection \<open>Counting the boolean actions and choosing the projection\<close>

definition count_bool_actions :: "rddl_model \<Rightarrow> nat \<times> int" where
  "count_bool_actions rddl =
     (let constraint = max_allowed_actions rddl;
          num_bool_actions =
            sum_list (map (\<lambda>(var, values). np_size values)
                       (filter (\<lambda>(var, values). variable_ranges rddl var = ''bool'')
                          (action_fluents rddl)))
      in (num_bool_actions, constraint))"

text \<open>\<open>_calculate_action_info\<close>: the type check of the ranges of the action fluents.\<close>

fun check_action_ranges :: "rddl_model \<Rightarrow> (string \<times> fluent_default) list \<Rightarrow> error + unit" where
  "check_action_ranges rddl [] = Inr ()"
| "check_action_ranges rddl ((name, values) # rest) =
     (if variable_ranges rddl name \<notin> {''int'', ''real'', ''bool''}
      then Inl (RDDLTypeError name)
      else check_action_ranges rddl rest)"

text \<open>
  The dictionary \<open>noop\<close>: \<open>values[0]\<close> for a list of defaults (which raises on an empty
  list), the value itself for a scalar.
\<close>

fun noop_items :: "(string \<times> fluent_default) list \<Rightarrow> error + (string \<times> bool) list" where
  "noop_items [] = Inr []"
| "noop_items ((var, Scalar v) # rest) =
     (case noop_items rest of Inl e \<Rightarrow> Inl e | Inr ns \<Rightarrow> Inr ((var, truthy v) # ns))"
| "noop_items ((var, Values []) # rest) = Inl IndexError"
| "noop_items ((var, Values (v # vs)) # rest) =
     (case noop_items rest of Inl e \<Rightarrow> Inl e | Inr ns \<Rightarrow> Inr ((var, truthy v) # ns))"

datatype projection_kind = ProjectToBox | SortingProjection | SogbofaProjection

text \<open>
  \<open>compile\<close>, as far as it builds the closure and chooses \<open>self.projection\<close>. With
  \<open>wrap_softmax\<close> the boolean parameters are stacked under one key and passed through a
  softmax; the functions below are those of a plan without the stacked key.
\<close>

definition slp_compile ::
  "slp_config \<Rightarrow> rddl_model \<Rightarrow> nat \<Rightarrow> error + (slp_env \<times> projection_kind)" where
  "slp_compile cfg rddl hor =
     (case check_action_ranges rddl (action_fluents rddl) of
        Inl e \<Rightarrow> Inl e
      | Inr u \<Rightarrow>
         (let (bool_action_count, allowed) = count_bool_actions rddl;
              use_constraint_satisfaction = (allowed < int bool_action_count)
          in case noop_items (action_fluents rddl) of
               Inl e \<Rightarrow> Inl e
             | Inr ns \<Rightarrow>
                (let env = \<lparr>wrap_sigmoid = wrap_sigmoid cfg,
                            min_action_prob = min_action_prob cfg,
                            wrap_non_bool = wrap_non_bool cfg,
                            wrap_softmax = wrap_softmax cfg,
                            use_new_projection = use_new_projection cfg,
                            max_constraint_iter = max_constraint_iter cfg,
                            ranges = variable_ranges rddl,
                            noop = (\<lambda>var. case map_of ns var of Some b \<Rightarrow> b | None \<Rightarrow> False),
                            allowed_actions = allowed,
                            bounds = action_bounds rddl,
                            horizon = hor\<rparr>
                 in if use_constraint_satisfaction \<and> wrap_softmax cfg then
                      (if 1 < allowed \<and> allowed < int bool_action_count
                       then Inl RDDLNotImplementedError
                       else Inr (env, ProjectToBox))
                    else if use_constraint_satisfaction \<and> use_new_projection cfg then
                      Inr (env, SortingProjection)
                    else if use_constraint_satisfaction \<and> \<not> use_new_projection cfg then
                      Inr (env, SogbofaProjection)
                    else Inr (env, ProjectToBox))))"

subsection \<open>Parameters and actions\<close>

definition sigmoid :: "real \<Rightarrow> real" where
  "sigmoid x = 1 / (1 + exp (- x))"

definition elu :: "real \<Rightarrow> real" where
  "elu x = (if x > 0 then x else exp x - 1)"

definition jnp_clip :: "real \<Rightarrow> real \<Rightarrow> real \<Rightarrow> real" where
  "jnp_clip x lo hi = min (max x lo) hi"

definition clip_bounds :: "real \<Rightarrow> real option \<times> real option \<Rightarrow> real" where
  "clip_bounds x b =
     (let y = (case fst b of None \<Rightarrow> x | Some lo \<Rightarrow> max x lo)
      in case snd b of None \<Rightarrow> y | Some hi \<Rightarrow> min y hi)"

text \<open>Rounding to the nearest integer, a half to the even neighbour.\<close>

definition jnp_round :: "real \<Rightarrow> int" where
  "jnp_round x =
     (let f = \<lfloor>x\<rfloor> in
      if x - of_int f < 1 / 2 then f
      else if x - of_int f > 1 / 2 then f + 1
      else if even f then f else f + 1)"

definition bool_threshold :: "slp_env \<Rightarrow> real" where
  "bool_threshold env = (if wrap_sigmoid env then 0 else 1 / 2)"

definition jax_bool_param_to_action :: "slp_env \<Rightarrow> string \<Rightarrow> real \<Rightarrow> hyperparams \<Rightarrow> real" where
  "jax_bool_param_to_action env var param hp =
     (if wrap_sigmoid env then
        (let weight = hp var in sigmoid (weight * param))
      else param)"

definition jax_bool_action_to_param :: "slp_env \<Rightarrow> string \<Rightarrow> real \<Rightarrow> hyperparams \<Rightarrow> real" where
  "jax_bool_action_to_param env var action hp =
     (if wrap_sigmoid env then
        (let weight = hp var in (- 1 / weight) * ln (1 / action - 1))
      else action)"

definition jax_non_bool_param_to_action :: "slp_env \<Rightarrow> string \<Rightarrow> real \<Rightarrow> real" where
  "jax_non_bool_param_to_action env var param =
     (if wrap_non_bool env then
        (case bounds env var of
           (Some lower, Some upper) \<Rightarrow> lower + (upper - lower) * sigmoid param
         | (Some lower, None) \<Rightarrow> lower + (elu param + 1)
         | (None, Some upper) \<Rightarrow> upper - (elu (- param) + 1)
         | (None, None) \<Rightarrow> param)
      else param)"

definition min_action :: "slp_env \<Rightarrow> real" where
  "min_action env = min_action_prob env"

definition max_action :: "slp_env \<Rightarrow> real" where
  "max_action env = 1 - min_action env"

definition jax_project_bool_to_box ::
  "slp_env \<Rightarrow> string \<Rightarrow> real list \<Rightarrow> hyperparams \<Rightarrow> real list" where
  "jax_project_bool_to_box env var param hp =
     (let lower = jax_bool_action_to_param env var (min_action env) hp;
          upper = jax_bool_action_to_param env var (max_action env) hp
      in map (\<lambda>x. jnp_clip x lower upper) param)"

definition bool_key :: string where
  "bool_key = ''bool__''"

definition jax_wrapped_slp_project_to_box ::
  "slp_env \<Rightarrow> step_params \<Rightarrow> hyperparams \<Rightarrow> step_params \<times> bool" where
  "jax_wrapped_slp_project_to_box env params hp =
     (map (\<lambda>(var, param).
             if var = bool_key then (var, param)
             else if ranges env var = ''bool'' then (var, jax_project_bool_to_box env var param hp)
             else if wrap_non_bool env then (var, param)
             else (var, map (\<lambda>x. clip_bounds x (bounds env var)) param))
          params,
      True)"

text \<open>
  \<open>_jax_wrapped_slp_predict_test\<close>: the action of every variable at a time step. A
  boolean action is the comparison of the parameter with the threshold. The branch of
  the stacked key, which exists with \<open>wrap_softmax\<close> only, is left out.
\<close>

datatype action_value = BoolAction "bool list" | IntAction "int list" | RealAction "real list"

definition jax_wrapped_slp_predict_test ::
  "slp_env \<Rightarrow> plan_params \<Rightarrow> hyperparams \<Rightarrow> nat \<Rightarrow> (string \<times> action_value) list" where
  "jax_wrapped_slp_predict_test env params hp step =
     map (\<lambda>(var, param).
            (let action = param ! step in
             if ranges env var = ''bool'' then
               (var, BoolAction (map (\<lambda>x. x > bool_threshold env) action))
             else
               (let action1 = map (jax_non_bool_param_to_action env var) action;
                    action2 = map (\<lambda>x. clip_bounds x (bounds env var)) action1
                in if ranges env var = ''int'' then (var, IntAction (map jnp_round action2))
                   else (var, RealAction action2))))
         params"

subsection \<open>The sort-based projection\<close>

text \<open>
  Indexing an array: a negative index counts from the end. The array library moves an
  index outside the array to the nearest entry and raises nothing; here such an index is
  an error, which is stricter than the program, so that a result of the sort-based
  projection shows that the index was inside the array.
\<close>

definition array_index :: "'a list \<Rightarrow> int \<Rightarrow> error + 'a" where
  "array_index xs i =
     (if 0 \<le> i \<and> i < int (length xs) then Inr (xs ! nat i)
      else if i < 0 \<and> - int (length xs) \<le> i then Inr (xs ! nat (int (length xs) + i))
      else Inl IndexError)"

text \<open>
  The list \<open>scores\<close> of \<open>_jax_wrapped_sorting_project\<close>, one array for every boolean
  variable, reflected when the no-op value of the variable is true.
\<close>

definition sorting_scores :: "slp_env \<Rightarrow> step_params \<Rightarrow> real list list" where
  "sorting_scores env params =
     map (\<lambda>(var, param).
            if noop env var
            then (if wrap_sigmoid env then map (\<lambda>x. - x) param else map (\<lambda>x. 1 - x) param)
            else param)
         (filter (\<lambda>(var, param). ranges env var = ''bool'') params)"

definition jax_wrapped_sorting_project ::
  "slp_env \<Rightarrow> step_params \<Rightarrow> hyperparams \<Rightarrow> error + (step_params \<times> bool)" where
  "jax_wrapped_sorting_project env params hp =
     (let scores = sorting_scores env params in
      if scores = [] then Inl (ValueError ''Need at least one array to concatenate.'')
      else
        (let descending = rev (sort (concat scores)) in
         case array_index descending (allowed_actions env) of
           Inl e \<Rightarrow> Inl e
         | Inr kplus1st_greatest \<Rightarrow>
            (let surplus = max (kplus1st_greatest - bool_threshold env) 0;
                 new_params =
                   map (\<lambda>(var, param).
                          if ranges env var = ''bool'' then
                            (let new_param =
                                   map (\<lambda>x. x + (if noop env var then surplus else - surplus)) param
                             in (var, jax_project_bool_to_box env var new_param hp))
                          else (var, param))
                       params
             in Inr (new_params, True))))"

subsection \<open>Mapping a projection over the horizon\<close>

text \<open>
  \<open>jax.vmap(f, in_axes=(0, None))(params, hyperparams)\<close>: \<open>f\<close> is applied to the slice of
  the parameters at every time step, and the results are stacked again.
\<close>

definition param_step :: "plan_params \<Rightarrow> nat \<Rightarrow> step_params" where
  "param_step params t = map (\<lambda>(var, param). (var, param ! t)) params"

fun sequence_results :: "(error + 'a) list \<Rightarrow> error + 'a list" where
  "sequence_results [] = Inr []"
| "sequence_results (Inl e # rs) = Inl e"
| "sequence_results (Inr x # rs) =
     (case sequence_results rs of Inl e \<Rightarrow> Inl e | Inr xs \<Rightarrow> Inr (x # xs))"

definition stack_steps :: "plan_params \<Rightarrow> step_params list \<Rightarrow> plan_params" where
  "stack_steps params steps =
     map (\<lambda>i. (fst (params ! i), map (\<lambda>s. snd (s ! i)) steps)) [0..<length params]"

definition vmap_over_horizon ::
  "slp_env \<Rightarrow> (step_params \<Rightarrow> hyperparams \<Rightarrow> error + (step_params \<times> bool)) \<Rightarrow>
   plan_params \<Rightarrow> hyperparams \<Rightarrow> error + (plan_params \<times> bool list)" where
  "vmap_over_horizon env f params hp =
     (case sequence_results (map (\<lambda>t. f (param_step params t) hp) [0..<horizon env]) of
        Inl e \<Rightarrow> Inl e
      | Inr results \<Rightarrow> Inr (stack_steps params (map fst results), map snd results))"

definition slp_project_to_box ::
  "slp_env \<Rightarrow> plan_params \<Rightarrow> hyperparams \<Rightarrow> plan_params \<times> bool" where
  "slp_project_to_box env params hp =
     (stack_steps params
        (map (\<lambda>t. fst (jax_wrapped_slp_project_to_box env (param_step params t) hp))
           [0..<horizon env]),
      True)"

text \<open>\<open>_jax_wrapped_slp_project_to_max_constraint\<close> of the sort-based projection.\<close>

definition sorting_project_to_max_constraint ::
  "slp_env \<Rightarrow> plan_params \<Rightarrow> hyperparams \<Rightarrow> error + (plan_params \<times> bool list)" where
  "sorting_project_to_max_constraint env params hp =
     (let (params1, u) = slp_project_to_box env params hp
      in vmap_over_horizon env (jax_wrapped_sorting_project env) params1 hp)"

text \<open>
  The number of boolean action entries at a time step whose test action differs from the
  no-op value of its variable.
\<close>

fun active_entries :: "slp_env \<Rightarrow> (string \<times> action_value) list \<Rightarrow> nat" where
  "active_entries env [] = 0"
| "active_entries env ((var, BoolAction bs) # rest) =
     length (filter (\<lambda>b. b \<noteq> noop env var) bs) + active_entries env rest"
| "active_entries env ((var, IntAction xs) # rest) = active_entries env rest"
| "active_entries env ((var, RealAction xs) # rest) = active_entries env rest"

subsection \<open>The iterative projection\<close>

text \<open>\<open>_jax_wrapped_sogbofa_surplus\<close>: the loop over the variables adds to \<open>sum_action\<close> and to \<open>count\<close> (here \<open>cnt\<close>).\<close>

fun sogbofa_sum_count ::
  "slp_env \<Rightarrow> hyperparams \<Rightarrow> step_params \<Rightarrow> real \<times> nat \<Rightarrow> real \<times> nat" where
  "sogbofa_sum_count env hp [] (sum_action, cnt) = (sum_action, cnt)"
| "sogbofa_sum_count env hp ((var, param) # rest) (sum_action, cnt) =
     (if ranges env var = ''bool'' then
        (let action = map (\<lambda>x. jax_bool_param_to_action env var x hp) param in
         if noop env var then
           sogbofa_sum_count env hp rest
             (sum_action + (real (length action) - sum_list action),
              cnt + length (filter (\<lambda>a. a < 1) action))
         else
           sogbofa_sum_count env hp rest
             (sum_action + sum_list action,
              cnt + length (filter (\<lambda>a. a > 0) action)))
      else sogbofa_sum_count env hp rest (sum_action, cnt))"

definition jax_wrapped_sogbofa_surplus :: "slp_env \<Rightarrow> step_params \<Rightarrow> hyperparams \<Rightarrow> real" where
  "jax_wrapped_sogbofa_surplus env params hp =
     (let (sum_action, cnt) = sogbofa_sum_count env hp params (0, 0);
          surplus = max (sum_action - real_of_int (allowed_actions env)) 0;
          cnt1 = max cnt 1
      in surplus / real cnt1)"

type_synonym sogbofa_values = "int \<times> step_params \<times> hyperparams \<times> real"

definition jax_wrapped_sogbofa_continue :: "slp_env \<Rightarrow> sogbofa_values \<Rightarrow> bool" where
  "jax_wrapped_sogbofa_continue env values =
     (case values of (it, params, hp, surplus) \<Rightarrow>
        it < max_constraint_iter env \<and> surplus > 0)"

definition jax_wrapped_sogbofa_subtract_surplus ::
  "slp_env \<Rightarrow> sogbofa_values \<Rightarrow> sogbofa_values" where
  "jax_wrapped_sogbofa_subtract_surplus env values =
     (case values of (it, params, hp, surplus) \<Rightarrow>
        (let new_params =
               map (\<lambda>(var, param).
                      if ranges env var = ''bool'' then
                        (var,
                         map (\<lambda>x.
                                (let action = jax_bool_param_to_action env var x hp;
                                     new_action = action + (if noop env var then surplus else - surplus);
                                     new_action1 = jnp_clip new_action (min_action env) (max_action env)
                                 in jax_bool_action_to_param env var new_action1 hp))
                             param)
                      else (var, param))
                   params;
             new_surplus = jax_wrapped_sogbofa_surplus env new_params hp;
             new_it = it + 1
         in (new_it, new_params, hp, new_surplus)))"

text \<open>
  \<open>jax.lax.while_loop\<close> with the condition and the body above. The counter grows by one
  in every pass and the condition bounds it, so the loop terminates.
\<close>

function sogbofa_while_loop :: "slp_env \<Rightarrow> sogbofa_values \<Rightarrow> sogbofa_values" where
  "sogbofa_while_loop env values =
     (if jax_wrapped_sogbofa_continue env values
      then sogbofa_while_loop env (jax_wrapped_sogbofa_subtract_surplus env values)
      else values)"
  by pat_completeness auto
termination
  by (relation "measure (\<lambda>(env, values). nat (max_constraint_iter env - fst values))")
     (auto simp: jax_wrapped_sogbofa_continue_def jax_wrapped_sogbofa_subtract_surplus_def
                 Let_def)

declare sogbofa_while_loop.simps [simp del]

definition jax_wrapped_sogbofa_project ::
  "slp_env \<Rightarrow> step_params \<Rightarrow> hyperparams \<Rightarrow> step_params \<times> bool" where
  "jax_wrapped_sogbofa_project env params hp =
     (let surplus = jax_wrapped_sogbofa_surplus env params hp;
          (it, params1, hp1, surplus1) = sogbofa_while_loop env (0, params, hp, surplus);
          converged = (\<not> surplus1 > 0)
      in (params1, converged))"

text \<open>\<open>_jax_wrapped_slp_project_to_max_constraint\<close> of the iterative projection.\<close>

definition sogbofa_project_to_max_constraint ::
  "slp_env \<Rightarrow> plan_params \<Rightarrow> hyperparams \<Rightarrow> error + (plan_params \<times> bool list)" where
  "sogbofa_project_to_max_constraint env params hp =
     (let (params1, u) = slp_project_to_box env params hp
      in vmap_over_horizon env (\<lambda>p h. Inr (jax_wrapped_sogbofa_project env p h)) params1 hp)"

section \<open>The utility functions\<close>

text \<open>
  \<open>jax.scipy.special.logsumexp(a, b=b)\<close> is the logarithm of the sum of \<open>b * exp(a)\<close>;
  here \<open>b\<close> is a scalar.
\<close>

definition logsumexp :: "real list \<Rightarrow> real \<Rightarrow> real" where
  "logsumexp a b = ln (sum_list (map (\<lambda>x. b * exp x) a))"

definition entropic_utility :: "real list \<Rightarrow> real \<Rightarrow> real" where
  "entropic_utility returns beta =
     (- 1 / beta) * logsumexp (map (\<lambda>r. - beta * r) returns) (1 / real (length returns))"

text \<open>The formula as the specification words it, without the weight.\<close>

definition entropic_utility_unweighted :: "real list \<Rightarrow> real \<Rightarrow> real" where
  "entropic_utility_unweighted returns beta =
     (- 1 / beta) * ln (sum_list (map (\<lambda>r. exp (- beta * r)) returns))"

section \<open>The deep reactive policy\<close>

text \<open>
  A value of a state dictionary is an array, of which the code reads the dtype: a number
  type, the boolean type, or another one (an array of objects). It can also be a Python
  object that is no array and has no dtype, such as \<open>None\<close>.
\<close>

datatype ndarray = NumArray "real list" | BoolArray "bool list" | ObjectArray nat

datatype state_value = Array ndarray | PyNone

fun is_number_dtype :: "ndarray \<Rightarrow> bool" where
  "is_number_dtype (NumArray xs) = True"
| "is_number_dtype (BoolArray bs) = False"
| "is_number_dtype (ObjectArray n) = False"

fun is_bool_dtype :: "ndarray \<Rightarrow> bool" where
  "is_bool_dtype (NumArray xs) = False"
| "is_bool_dtype (BoolArray bs) = True"
| "is_bool_dtype (ObjectArray n) = False"


text \<open>
  The variables of \<open>JaxDeepReactivePolicy.compile\<close> that the prediction functions close
  over (with the prefix \<open>drp\<close> where the name is that of a variable of the straight-line
  plan). \<open>predict_fn_apply\<close> is the network, built by the neural network library: it maps
  the parameters and the state vector to one output for every action variable, or, under
  the concurrency constraint, to the outputs of the variables that are not boolean and
  one softmax output under the key \<open>bool__\<close>.
\<close>

record 'p drp_env =
  drp_ranges :: "string \<Rightarrow> string"
  drp_noop :: "string \<Rightarrow> bool"
  drp_bounds :: "string \<Rightarrow> real option \<times> real option"
  drp_wrap_non_bool :: bool
  use_constraint_satisfaction :: bool
  layer_sizes :: "(string \<times> nat) list"
  observed_vars :: "string list"
  predict_fn_apply :: "'p \<Rightarrow> real list \<Rightarrow> (string \<times> real list) list"






section \<open>Querying an action\<close>

text \<open>
  What \<open>get_action\<close> uses of the planner: the two separators of grounded names
  (constants of the model class of the modelling library), the observation fluents,
  the initial values of the exact model, and the test policy of the plan. The test
  policy is \<open>_jax_wrapped_slp_predict_test\<close> for a straight-line plan, which does not
  read the state, and \<open>_jax_wrapped_drp_predict_test\<close> for a deep reactive policy, which
  does and can raise.
\<close>

record ('k, 'p, 'h, 'a) action_query =
  FLUENT_SEP :: string
  OBJECT_SEP :: string
  observ_fluents :: "string list"
  init_values :: "string \<Rightarrow> ndarray option"
  test_policy :: "'k \<Rightarrow> 'p \<Rightarrow> 'h \<Rightarrow> int \<Rightarrow> (string \<times> state_value) list \<Rightarrow> error + 'a"

text \<open>
  The loop over \<open>subs.items()\<close>; it replaces values in \<open>subs\<close> while it runs. The first
  argument is the rest of the items to visit, the last one the dictionary as updated so
  far. Reading \<open>values.dtype\<close> raises for a value that has none.
\<close>

fun check_subs ::
  "('k, 'p, 'h, 'a) action_query \<Rightarrow> int \<Rightarrow> (string \<times> state_value) list \<Rightarrow>
   (string \<times> state_value) list \<Rightarrow> error + (string \<times> state_value) list" where
  "check_subs Q step [] subs = Inr subs"
| "check_subs Q step ((var, PyNone) # rest) subs =
     (if sublist (FLUENT_SEP Q) var \<or> sublist (OBJECT_SEP Q) var then
        Inl (ValueError var)
      else Inl (AttributeError ''dtype''))"
| "check_subs Q step ((var, Array values) # rest) subs =
     (if sublist (FLUENT_SEP Q) var \<or> sublist (OBJECT_SEP Q) var then
        Inl (ValueError var)
      else if \<not> is_number_dtype values \<and> \<not> is_bool_dtype values then
        (if step = 0 \<and> var \<in> set (observ_fluents Q) then
           (case init_values Q var of
              None \<Rightarrow> Inl (KeyError var)
            | Some v \<Rightarrow> check_subs Q step rest (AList.update var (Array v) subs))
         else Inl (ValueError var))
      else check_subs Q step rest subs)"

definition get_action ::
  "('k, 'p, 'h, 'a) action_query \<Rightarrow> 'k \<Rightarrow> 'p \<Rightarrow> int \<Rightarrow> (string \<times> state_value) list \<Rightarrow> 'h \<Rightarrow>
   error + 'a" where
  "get_action Q k params step subs policy_hyperparams =
     (case check_subs Q step subs subs of
        Inl e \<Rightarrow> Inl e
      | Inr subs1 \<Rightarrow> test_policy Q k params policy_hyperparams step subs1)"

section \<open>The planner status\<close>

datatype JaxPlannerStatus =
    NORMAL
  | NO_PROGRESS
  | PRECONDITION_POSSIBLY_UNSATISFIED
  | TIME_BUDGET_REACHED
  | ITER_BUDGET_REACHED
  | INVALID_GRADIENT

fun status_value :: "JaxPlannerStatus \<Rightarrow> int" where
  "status_value NORMAL = 0"
| "status_value NO_PROGRESS = 1"
| "status_value PRECONDITION_POSSIBLY_UNSATISFIED = 2"
| "status_value TIME_BUDGET_REACHED = 3"
| "status_value ITER_BUDGET_REACHED = 4"
| "status_value INVALID_GRADIENT = 5"

definition is_failure :: "JaxPlannerStatus \<Rightarrow> bool" where
  "is_failure s = (status_value s \<ge> 3)"

section \<open>The rolling mean of the test loss\<close>

text \<open>
  Class \<open>RollingMean\<close>: a deque of bounded length and the running total. The constructor
  of a deque refuses a negative bound, and \<open>popleft\<close> on an empty deque raises.
\<close>

record RollingMean =
  window_size :: int
  memory :: "float list"
  total :: float

definition RollingMean_init :: "int \<Rightarrow> error + RollingMean" where
  "RollingMean_init w =
     (if w < 0 then Inl (ValueError ''maxlen must be non-negative'')
      else Inr \<lparr>window_size = w, memory = [], total = Finite 0\<rparr>)"

text \<open>Appending to a deque with a bound drops the leftmost element of a full deque.\<close>

definition deque_append :: "int \<Rightarrow> 'a list \<Rightarrow> 'a \<Rightarrow> 'a list" where
  "deque_append maxlen m x =
     (if maxlen = 0 then []
      else if int (length m) = maxlen then tl m @ [x]
      else m @ [x])"

definition RollingMean_update :: "RollingMean \<Rightarrow> float \<Rightarrow> error + (float \<times> RollingMean)" where
  "RollingMean_update rm x =
     (let total1 = fadd (total rm) x in
      if int (length (memory rm)) = window_size rm then
        (case memory rm of
           [] \<Rightarrow> Inl IndexError
         | y # rest \<Rightarrow>
             (let total2 = fsub total1 y;
                  mem = deque_append (window_size rm) rest x
              in Inr (fdiv_count total2 (length mem),
                      rm\<lparr>memory := mem, total := total2\<rparr>)))
      else
        (let mem = deque_append (window_size rm) (memory rm) x
         in Inr (fdiv_count total1 (length mem),
                 rm\<lparr>memory := mem, total := total1\<rparr>)))"

section \<open>The optimization driver\<close>

text \<open>
  The planner calls the random number generator, the plan initializer, the optimizer, the
  gradient of the training loss, the projection of the plan and the two losses. They are
  compiled by the model compiler and the optimizer library; here they are the fields of a
  record, with the hyper-parameters, the initial state and the model parameters (which
  do not change during a call of \<open>optimize\<close>) fixed inside them. \<open>grad_allclose_zero\<close>
  is the flattened tree of \<open>np.allclose(x, 0)\<close> over the leaves of a gradient.
\<close>

record ('k, 'p, 'o, 'g, 'u) planner =
  random_split :: "'k \<Rightarrow> 'k \<times> 'k"
  random_split4 :: "'k \<Rightarrow> 'k \<times> 'k \<times> 'k \<times> 'k"
  plan_initializer :: "'k \<Rightarrow> 'p"
  optimizer_init :: "'p \<Rightarrow> 'o"
  optimizer_update :: "'g \<Rightarrow> 'o \<Rightarrow> 'u \<times> 'o"
  apply_updates :: "'p \<Rightarrow> 'u \<Rightarrow> 'p"
  grad_fn :: "'k \<Rightarrow> 'p \<Rightarrow> 'g"
  projection :: "'p \<Rightarrow> 'p \<times> bool list"
  train_loss :: "'k \<Rightarrow> 'p \<Rightarrow> float"
  test_loss :: "'k \<Rightarrow> 'p \<Rightarrow> float"
  grad_allclose_zero :: "'g \<Rightarrow> bool list"

definition np_all :: "bool list \<Rightarrow> bool" where
  "np_all bs = list_all (\<lambda>b. b) bs"

text \<open>\<open>_jax_wrapped_init_policy\<close> and \<open>_jax_wrapped_plan_update\<close>.\<close>

definition initialize ::
  "('k, 'p, 'o, 'g, 'u) planner \<Rightarrow> 'k \<Rightarrow> 'p \<times> 'o" where
  "initialize P k =
     (let policy_params = plan_initializer P k;
          opt_state = optimizer_init P policy_params
      in (policy_params, opt_state))"

definition plan_update ::
  "('k, 'p, 'o, 'g, 'u) planner \<Rightarrow> 'k \<Rightarrow> 'p \<Rightarrow> 'o \<Rightarrow> 'p \<times> bool list \<times> 'o \<times> 'g \<times> 'u" where
  "plan_update P k policy_params opt_state =
     (let g = grad_fn P k policy_params;
          (upd, opt_state1) = optimizer_update P g opt_state;
          policy_params1 = apply_updates P policy_params upd;
          (policy_params2, converged) = projection P policy_params1
      in (policy_params2, converged, opt_state1, g, upd))"

text \<open>
  The record yielded in every iteration. \<open>best_grad\<close> starts as the scalar infinity, not
  a gradient: it is \<open>None\<close> until a first improvement.
\<close>

record ('k, 'p, 'g, 'u) callback =
  status :: JaxPlannerStatus
  iteration :: int
  train_return :: float
  test_return :: float
  best_return :: float
  params :: 'p
  best_params :: 'p
  last_iteration_improved :: int
  grad :: 'g
  best_grad :: "'g option"
  updates :: 'u
  elapsed_time :: real
  key :: 'k

text \<open>The variables the loop carries from one iteration to the next.\<close>

record ('k, 'p, 'o, 'g) loop_state =
  cur_key :: 'k
  cur_policy_params :: 'p
  cur_opt_state :: 'o
  cur_best_params :: 'p
  cur_best_loss :: float
  cur_best_grad :: "'g option"
  cur_last_iter_improve :: int
  rolling_test_loss :: RollingMean

text \<open>
  One pass through the body of the training loop, up to and including the \<open>yield\<close>.
  \<open>clock it\<close> is what the wall clock gives for \<open>elapsed\<close> in iteration \<open>it\<close>. With
  \<open>verbose >= 2\<close> the progress bar is set to the larger of \<open>elapsed / train_seconds\<close> and
  \<open>it / epochs\<close>; the first quotient raises for a time budget of zero (the second does
  not: \<open>epochs\<close> is positive inside the loop). What the progress bar shows is not
  modelled, and plotting is off (\<open>plot_step = None\<close>).
\<close>

definition iteration_body ::
  "('k, 'p, 'o, 'g, 'u) planner \<Rightarrow> int \<Rightarrow> real \<Rightarrow> int \<Rightarrow> (int \<Rightarrow> real) \<Rightarrow> int \<Rightarrow>
   ('k, 'p, 'o, 'g) loop_state \<Rightarrow>
   error + (('k, 'p, 'g, 'u) callback \<times> ('k, 'p, 'o, 'g) loop_state)" where
  "iteration_body P epochs train_seconds verbose clock it st =
     (let status0 = NORMAL;
          (key1, subkey1, subkey2, subkey3) = random_split4 P (cur_key st);
          (policy_params, converged, opt_state, g, upd) =
             plan_update P subkey1 (cur_policy_params st) (cur_opt_state st);
          status1 = (if \<not> np_all converged
                     then PRECONDITION_POSSIBLY_UNSATISFIED else status0);
          train_loss1 = train_loss P subkey2 policy_params;
          test_loss0 = test_loss P subkey3 policy_params
      in case RollingMean_update (rolling_test_loss st) test_loss0 of
           Inl e \<Rightarrow> Inl e
         | Inr (test_loss1, rolling1) \<Rightarrow>
            (let improve = fless test_loss1 (cur_best_loss st);
                 best_params1 = (if improve then policy_params else cur_best_params st);
                 best_loss1 = (if improve then test_loss1 else cur_best_loss st);
                 best_grad1 = (if improve then Some g else cur_best_grad st);
                 last_iter_improve1 = (if improve then it else cur_last_iter_improve st);
                 elapsed = clock it
             in if verbose \<ge> 2 \<and> train_seconds = 0 then Inl ZeroDivisionError
                else
            (let status2 = (if elapsed \<ge> train_seconds then TIME_BUDGET_REACHED else status1);
                 status3 = (if it \<ge> epochs - 1 then ITER_BUDGET_REACHED else status2);
                 status4 = (if \<not> np_isfinite train_loss1 then INVALID_GRADIENT else status3);
                 status5 = (if np_all (grad_allclose_zero P g) then NO_PROGRESS else status4)
             in Inr (\<lparr>status = status5,
                      iteration = it,
                      train_return = fneg train_loss1,
                      test_return = fneg test_loss1,
                      best_return = fneg best_loss1,
                      params = policy_params,
                      best_params = best_params1,
                      last_iteration_improved = last_iter_improve1,
                      grad = g,
                      best_grad = best_grad1,
                      updates = upd,
                      elapsed_time = elapsed,
                      key = key1\<rparr>,
                     \<lparr>cur_key = key1,
                      cur_policy_params = policy_params,
                      cur_opt_state = opt_state,
                      cur_best_params = best_params1,
                      cur_best_loss = best_loss1,
                      cur_best_grad = best_grad1,
                      cur_last_iter_improve = last_iter_improve1,
                      rolling_test_loss = rolling1\<rparr>))))"

text \<open>
  The loop \<open>for it in range(epochs)\<close> with its \<open>break\<close>: the result is the list of the
  records yielded, and the exception that ended the loop, if any.
\<close>

function training_loop ::
  "('k, 'p, 'o, 'g, 'u) planner \<Rightarrow> int \<Rightarrow> real \<Rightarrow> int \<Rightarrow> (int \<Rightarrow> real) \<Rightarrow> int \<Rightarrow>
   ('k, 'p, 'o, 'g) loop_state \<Rightarrow> ('k, 'p, 'g, 'u) callback list \<times> error option" where
  "training_loop P epochs train_seconds verbose clock it st =
     (if it < epochs then
        (case iteration_body P epochs train_seconds verbose clock it st of
           Inl e \<Rightarrow> ([], Some e)
         | Inr (cb, st1) \<Rightarrow>
             if is_failure (status cb) then ([cb], None)
             else (case training_loop P epochs train_seconds verbose clock (it + 1) st1 of
                     (rest, err) \<Rightarrow> (cb # rest, err)))
      else ([], None))"
  by pat_completeness auto
termination
  by (relation "measure (\<lambda>(P, epochs, train_seconds, verbose, clock, it, st). nat (epochs - it))") auto

declare training_loop.simps [simp del]

text \<open>
  The variables as \<open>optimize_generator\<close> sets them before the loop: the parameters are
  the guess, or come from the initializer on a fresh subkey.
\<close>

definition initial_policy ::
  "('k, 'p, 'o, 'g, 'u) planner \<Rightarrow> 'k \<Rightarrow> 'p option \<Rightarrow> 'k \<times> 'p \<times> 'o" where
  "initial_policy P k guess =
     (case guess of
        None \<Rightarrow>
          (let (key0, subkey) = random_split P k;
               (policy_params, opt_state) = initialize P subkey
           in (key0, policy_params, opt_state))
      | Some g \<Rightarrow> (k, g, optimizer_init P g))"

definition initial_loop_state ::
  "('k, 'p, 'o, 'g, 'u) planner \<Rightarrow> 'k \<Rightarrow> 'p option \<Rightarrow> RollingMean \<Rightarrow>
   ('k, 'p, 'o, 'g) loop_state" where
  "initial_loop_state P k guess rm =
     (let (key1, policy_params, opt_state) = initial_policy P k guess
      in \<lparr>cur_key = key1,
          cur_policy_params = policy_params,
          cur_opt_state = opt_state,
          cur_best_params = policy_params,
          cur_best_loss = PosInf,
          cur_best_grad = None,
          cur_last_iter_improve = 0,
          rolling_test_loss = rm\<rparr>)"

text \<open>\<open>optimize_generator\<close>, fully consumed, and \<open>optimize\<close> on top of it.\<close>

definition optimize_generator ::
  "('k, 'p, 'o, 'g, 'u) planner \<Rightarrow> 'k \<Rightarrow> int \<Rightarrow> real \<Rightarrow> 'p option \<Rightarrow> int \<Rightarrow> int \<Rightarrow>
   (int \<Rightarrow> real) \<Rightarrow>
   ('k, 'p, 'g, 'u) callback list \<times> error option" where
  "optimize_generator P k epochs train_seconds guess verbose test_rolling_window clock =
     (case RollingMean_init test_rolling_window of
        Inl e \<Rightarrow> ([], Some e)
      | Inr rm \<Rightarrow>
          training_loop P epochs train_seconds verbose clock 0 (initial_loop_state P k guess rm))"

text \<open>
  \<open>deque(it, maxlen=1).pop()\<close> is the last record yielded; it raises on an empty deque.
  \<open>optimize\<close> is modelled with \<open>return_callback = False\<close>.
  The summary that \<open>optimize_generator\<close> prints after the loop is not modelled.
\<close>

definition optimize ::
  "('k, 'p, 'o, 'g, 'u) planner \<Rightarrow> 'k \<Rightarrow> int \<Rightarrow> real \<Rightarrow> 'p option \<Rightarrow> int \<Rightarrow> int \<Rightarrow>
   (int \<Rightarrow> real) \<Rightarrow>
   error + 'p" where
  "optimize P k epochs train_seconds guess verbose test_rolling_window clock =
     (case optimize_generator P k epochs train_seconds guess verbose test_rolling_window clock of
        (recs, Some e) \<Rightarrow> Inl e
      | (recs, None) \<Rightarrow>
          (case rev recs of
             [] \<Rightarrow> Inl IndexError
           | cb # earlier \<Rightarrow> Inr (best_params cb)))"

text \<open>
  Auxiliary notions for stating properties of the driver: the convergence flags that the
  projection returns in the iteration that starts in a state, the properties of the
  \<open>i\<close>-th record of a run of the loop, and a small concrete planner.
\<close>

definition converged_in ::
  "('k, 'p, 'o, 'g, 'u) planner \<Rightarrow> ('k, 'p, 'o, 'g) loop_state \<Rightarrow> bool list" where
  "converged_in P st =
     (case random_split4 P (cur_key st) of
        (key1, subkey1, subkey2, subkey3) \<Rightarrow>
          fst (snd (plan_update P subkey1 (cur_policy_params st) (cur_opt_state st))))"

definition rec_ok ::
  "int \<Rightarrow> int \<Rightarrow> float \<Rightarrow> 'p \<Rightarrow> ('k, 'p, 'g, 'u) callback list \<Rightarrow> nat \<Rightarrow> bool" where
  "rec_ok epochs it bl bp recs i =
     (iteration (recs ! i) = it + int i
      \<and> (is_failure (status (recs ! i)) \<longrightarrow> Suc i = length recs)
      \<and> (\<not> is_failure (status (recs ! i)) \<and> it + int i + 1 < epochs \<longrightarrow> Suc i < length recs)
      \<and> best_params (recs ! i) =
          (if fless (fneg (test_return (recs ! i)))
                (if i = 0 then bl else fneg (best_return (recs ! (i - 1))))
           then params (recs ! i)
           else (if i = 0 then bp else best_params (recs ! (i - 1)))))"

definition toy_planner :: "float \<Rightarrow> float \<Rightarrow> real \<Rightarrow> (nat, real, unit, real, real) planner" where
  "toy_planner trl tel g0 =
     \<lparr>random_split = (\<lambda>k. (k + 1, k + 2)),
      random_split4 = (\<lambda>k. (k + 1, k + 2, k + 3, k + 4)),
      plan_initializer = (\<lambda>k. 0),
      optimizer_init = (\<lambda>p. ()),
      optimizer_update = (\<lambda>g os. (- g, os)),
      apply_updates = (\<lambda>p u. p + u),
      grad_fn = (\<lambda>k p. g0),
      projection = (\<lambda>p. (p, [True])),
      train_loss = (\<lambda>k p. trl),
      test_loss = (\<lambda>k p. tel),
      grad_allclose_zero = (\<lambda>g. [\<bar>g\<bar> \<le> 1 / 10 ^ 8])\<rparr>"

definition toy_clock :: "int \<Rightarrow> real" where
  "toy_clock it = 1 + real_of_int it"

definition toy_state :: "(nat, real, unit, real) loop_state" where
  "toy_state = initial_loop_state (toy_planner (Finite 1) (Finite 1) 1) 0 None
                 \<lparr>window_size = 10, memory = [], total = Finite 0\<rparr>"

section \<open>Concrete inputs\<close>

text \<open>
  A model with one boolean action fluent \<open>a\<close> with two groundings, whose default value
  is true, and at most one action that is not the default; a plan with the sort-based
  projection and the default probability bound; all weights 1.
\<close>

definition example_rddl :: rddl_model where
  "example_rddl =
     \<lparr>variable_ranges = (\<lambda>var. ''bool''),
      action_fluents = [(''a'', Values [BoolV True, BoolV True])],
      max_allowed_actions = 1,
      action_bounds = (\<lambda>var. (None, None))\<rparr>"

definition example_config :: slp_config where
  "example_config =
     \<lparr>wrap_sigmoid = True,
      min_action_prob = 1 / 1000000,
      wrap_non_bool = False,
      wrap_softmax = False,
      use_new_projection = True,
      max_constraint_iter = 100\<rparr>"

definition example_env :: slp_env where
  "example_env =
     \<lparr>wrap_sigmoid = True,
      min_action_prob = 1 / 1000000,
      wrap_non_bool = False,
      wrap_softmax = False,
      use_new_projection = True,
      max_constraint_iter = 100,
      ranges = (\<lambda>var. ''bool''),
      noop = (\<lambda>var. case map_of [(''a'', True)] var of Some b \<Rightarrow> b | None \<Rightarrow> False),
      allowed_actions = 1,
      bounds = (\<lambda>var. (None, None)),
      horizon = 1\<rparr>"

definition example_hyperparams :: hyperparams where
  "example_hyperparams var = 1"

definition example_params :: plan_params where
  "example_params = [(''a'', [ [- 2, - 1] ])]"

text \<open>
  A plan with the iterative projection and without the sigmoid, for a boolean action
  fluent with two groundings whose default value is false.
\<close>

definition sogbofa_example_env :: slp_env where
  "sogbofa_example_env =
     \<lparr>wrap_sigmoid = False,
      min_action_prob = 1 / 1000000,
      wrap_non_bool = False,
      wrap_softmax = False,
      use_new_projection = False,
      max_constraint_iter = 100,
      ranges = (\<lambda>var. ''bool''),
      noop = (\<lambda>var. False),
      allowed_actions = 1,
      bounds = (\<lambda>var. (None, None)),
      horizon = 1\<rparr>"

definition sogbofa_example_params :: step_params where
  "sogbofa_example_params = [(''a'', [9 / 10, 4 / 5])]"

text \<open>
  A planner for a model with one observation fluent \<open>obs\<close>, with the separators of the
  modelling library; its test policy is given the state and returns it, so that the
  state passed on is visible in the result.
\<close>

definition example_query ::
  "(nat, nat, nat, (string \<times> state_value) list) action_query" where
  "example_query =
     \<lparr>FLUENT_SEP = ''___'',
      OBJECT_SEP = ''__'',
      observ_fluents = [''obs''],
      init_values = [''obs'' \<mapsto> NumArray [0]],
      test_policy = (\<lambda>k ps hp step subs. Inr subs)\<rparr>"




section \<open>Notions used in the statements\<close>

text \<open>The values of the loop variables when the loop of the iterative projection ends.\<close>

definition sogbofa_exit :: "slp_env \<Rightarrow> step_params \<Rightarrow> hyperparams \<Rightarrow> sogbofa_values" where
  "sogbofa_exit env ps hp =
     sogbofa_while_loop env (0, ps, hp, jax_wrapped_sogbofa_surplus env ps hp)"

text \<open>
  The parameters at a time step have, up to the order of the dictionary, one array for
  every action fluent, with as many entries as the fluent has default values. This is
  the shape of the parameters that the initializer of the plan creates.
\<close>

definition shaped_like_action_fluents :: "rddl_model \<Rightarrow> step_params \<Rightarrow> bool" where
  "shaped_like_action_fluents rddl ps =
     (mset (map (\<lambda>(var, param). (var, length param)) ps) =
      mset (map (\<lambda>(var, values). (var, np_size values)) (action_fluents rddl)))"






text \<open>
  The number of active boolean entries, read off the parameters at one time step: an
  entry is active when its comparison with the threshold differs from the no-op value.
\<close>

definition step_active :: "slp_env \<Rightarrow> step_params \<Rightarrow> nat" where
  "step_active env ps =
     sum_list (map (\<lambda>(var, param).
                      length (filter (\<lambda>x. (x > bool_threshold env) \<noteq> noop env var) param))
                 (filter (\<lambda>(var, param). ranges env var = ''bool'') ps))"

section \<open>Properties of the optimization driver\<close>

lemma fneg_fneg [simp]: "fneg (fneg x) = x"
  by (cases x) auto

lemma np_isfinite_fneg [simp]: "np_isfinite (fneg x) = np_isfinite x"
  by (cases x) auto

lemma RollingMean_update_ok:
  assumes "1 \<le> window_size rm"
  shows "\<exists>m rm1. RollingMean_update rm x = Inr (m, rm1)"
  using assms by (auto simp: RollingMean_update_def Let_def split: list.splits)

lemma RollingMean_update_window:
  assumes "RollingMean_update rm x = Inr (m, rm1)"
  shows "window_size rm1 = window_size rm"
  using assms by (auto simp: RollingMean_update_def Let_def split: list.splits if_splits)

lemma iteration_body_cases:
  assumes "iteration_body P epochs secs verbose clock it st = Inr (cb, st1)"
  obtains key1 s1 s2 s3 pp conv os g upd tl rm1 where
    "random_split4 P (cur_key st) = (key1, s1, s2, s3)"
    "plan_update P s1 (cur_policy_params st) (cur_opt_state st) = (pp, conv, os, g, upd)"
    "RollingMean_update (rolling_test_loss st) (test_loss P s3 pp) = Inr (tl, rm1)"
    "status cb =
       (if np_all (grad_allclose_zero P g) then NO_PROGRESS
        else if \<not> np_isfinite (train_loss P s2 pp) then INVALID_GRADIENT
        else if it \<ge> epochs - 1 then ITER_BUDGET_REACHED
        else if clock it \<ge> secs then TIME_BUDGET_REACHED
        else if \<not> np_all conv then PRECONDITION_POSSIBLY_UNSATISFIED
        else NORMAL)"
    "iteration cb = it" "elapsed_time cb = clock it" "grad cb = g" "params cb = pp"
    "train_return cb = fneg (train_loss P s2 pp)"
    "test_return cb = fneg tl"
    "best_params cb = (if fless tl (cur_best_loss st) then pp else cur_best_params st)"
    "best_return cb = fneg (if fless tl (cur_best_loss st) then tl else cur_best_loss st)"
    "cur_best_params st1 = best_params cb"
    "cur_best_loss st1 = (if fless tl (cur_best_loss st) then tl else cur_best_loss st)"
    "rolling_test_loss st1 = rm1"
proof -
  obtain key1 s1 s2 s3 where sp: "random_split4 P (cur_key st) = (key1, s1, s2, s3)"
    by (metis prod_cases4)
  obtain pp conv os g upd where
    up: "plan_update P s1 (cur_policy_params st) (cur_opt_state st) = (pp, conv, os, g, upd)"
    by (metis prod_cases5)
  obtain tl rm1 where
    ru: "RollingMean_update (rolling_test_loss st) (test_loss P s3 pp) = Inr (tl, rm1)"
    using assms sp up
    by (cases "RollingMean_update (rolling_test_loss st) (test_loss P s3 pp)")
       (auto simp: iteration_body_def Let_def)
  have nz: "\<not> (verbose \<ge> 2 \<and> secs = 0)"
    using assms sp up ru by (auto simp: iteration_body_def Let_def)
  have cbst: "cb = fst (projr (iteration_body P epochs secs verbose clock it st))"
     "st1 = snd (projr (iteration_body P epochs secs verbose clock it st))"
    using assms by simp_all
  show thesis
    apply (rule that[OF sp up ru])
    apply (simp_all add: cbst iteration_body_def Let_def sp up ru nz)
    done
qed

lemma iteration_body_ok:
  assumes "1 \<le> window_size (rolling_test_loss st)" and "verbose < 2 \<or> secs \<noteq> 0"
  shows "\<exists>cb st1. iteration_body P epochs secs verbose clock it st = Inr (cb, st1)"
proof -
  obtain key1 s1 s2 s3 where sp: "random_split4 P (cur_key st) = (key1, s1, s2, s3)"
    by (metis prod_cases4)
  obtain pp conv os g upd where
    up: "plan_update P s1 (cur_policy_params st) (cur_opt_state st) = (pp, conv, os, g, upd)"
    by (metis prod_cases5)
  obtain tl rm1 where
    ru: "RollingMean_update (rolling_test_loss st) (test_loss P s3 pp) = Inr (tl, rm1)"
    using RollingMean_update_ok[OF assms(1)] by blast
  have nz: "\<not> (verbose \<ge> 2 \<and> secs = 0)" using assms(2) by auto
  show ?thesis
    by (simp add: iteration_body_def Let_def sp up ru nz)
qed

lemma iteration_body_zero_budget:
  assumes "2 \<le> verbose" "secs = 0"
  shows "\<exists>e. iteration_body P epochs secs verbose clock it st = Inl e"
proof -
  obtain key1 s1 s2 s3 where sp: "random_split4 P (cur_key st) = (key1, s1, s2, s3)"
    by (metis prod_cases4)
  obtain pp conv os g upd where
    up: "plan_update P s1 (cur_policy_params st) (cur_opt_state st) = (pp, conv, os, g, upd)"
    by (metis prod_cases5)
  show ?thesis
    using assms
    by (cases "RollingMean_update (rolling_test_loss st) (test_loss P s3 pp)")
       (auto simp: iteration_body_def Let_def sp up)
qed

lemma training_loop_body_raises:
  assumes "iteration_body P epochs secs verbose clock it st = Inl e"
  shows "fst (training_loop P epochs secs verbose clock it st) = []"
  using assms by (simp add: training_loop.simps[of P epochs secs verbose clock it st])

lemma iteration_body_chain:
  assumes "iteration_body P epochs secs verbose clock it st = Inr (cb, st1)"
  shows "iteration cb = it"
    and "cur_best_loss st1 = fneg (best_return cb)"
    and "cur_best_params st1 = best_params cb"
    and "window_size (rolling_test_loss st1) = window_size (rolling_test_loss st)"
    and "best_params cb = (if fless (fneg (test_return cb)) (cur_best_loss st)
                           then params cb else cur_best_params st)"
  using assms
  by (rule iteration_body_cases; simp add: RollingMean_update_window)+

lemma rec_ok_Cons_Suc:
  assumes "rec_ok epochs (it + 1) (fneg (best_return cb)) (best_params cb) rest j"
  shows "rec_ok epochs it bl bp (cb # rest) (Suc j)"
  using assms by (cases j) (auto simp: rec_ok_def add.assoc)

lemma training_loop_records:
  assumes "1 \<le> window_size (rolling_test_loss st)" and "verbose < 2 \<or> secs \<noteq> 0"
  shows "\<exists>recs. training_loop P epochs secs verbose clock it st = (recs, None)
           \<and> (it < epochs \<longrightarrow> recs \<noteq> [])
           \<and> (\<forall>i<length recs. rec_ok epochs it (cur_best_loss st) (cur_best_params st) recs i)"
  using assms
proof (induction P epochs secs verbose clock it st rule: training_loop.induct)
  case (1 P epochs secs verbose clock it st)
  show ?case
  proof (cases "it < epochs")
    case False
    then show ?thesis by (simp add: training_loop.simps[of P epochs secs verbose clock it st])
  next
    case True
    note unf = training_loop.simps[of P epochs secs verbose clock it st]
    obtain cb st1 where body: "iteration_body P epochs secs verbose clock it st = Inr (cb, st1)"
      using iteration_body_ok[OF "1.prems"] by blast
    note nz = "1.prems"(2)
    note ch = iteration_body_chain[OF body]
    show ?thesis
    proof (cases "is_failure (status cb)")
      case True
      have "training_loop P epochs secs verbose clock it st = ([cb], None)"
        using \<open>it < epochs\<close> body True by (simp add: unf)
      moreover have "rec_ok epochs it (cur_best_loss st) (cur_best_params st) [cb] 0"
        using True ch by (simp add: rec_ok_def)
      ultimately show ?thesis by simp
    next
      case False
      have w1: "1 \<le> window_size (rolling_test_loss st1)"
        using ch(4) "1.prems"(1) by simp
      obtain rest where
        rest: "training_loop P epochs secs verbose clock (it + 1) st1 = (rest, None)"
        and ne: "it + 1 < epochs \<longrightarrow> rest \<noteq> []"
        and ok: "\<forall>j<length rest. rec_ok epochs (it + 1) (cur_best_loss st1) (cur_best_params st1) rest j"
        using "1.IH"[OF \<open>it < epochs\<close> body refl False w1 nz] by blast
      have tl: "training_loop P epochs secs verbose clock it st = (cb # rest, None)"
        using \<open>it < epochs\<close> body False rest by (simp add: unf)
      have r0: "rec_ok epochs it (cur_best_loss st) (cur_best_params st) (cb # rest) 0"
        using False ch ne by (simp add: rec_ok_def)
      have rS: "rec_ok epochs it (cur_best_loss st) (cur_best_params st) (cb # rest) (Suc j)"
        if "j < length rest" for j
        using ok that ch by (intro rec_ok_Cons_Suc) simp
      have "rec_ok epochs it (cur_best_loss st) (cur_best_params st) (cb # rest) i"
        if "i < length (cb # rest)" for i
        using that r0 rS by (cases i) auto
      then show ?thesis using tl by simp
    qed
  qed
qed

lemmas toy_defs = optimize_generator_def RollingMean_init_def initial_loop_state_def
  initial_policy_def initialize_def training_loop.simps toy_planner_def toy_clock_def iteration_body_def plan_update_def
  RollingMean_update_def deque_append_def np_all_def is_failure_def Let_def fsub_def

lemma RollingMean_init_cases:
  obtains (neg) "w < 0" "RollingMean_init w = Inl (ValueError ''maxlen must be non-negative'')"
  | (zero) rm where "w = 0" "RollingMean_init w = Inr rm" "window_size rm = 0" "memory rm = []"
  | (pos) rm where "1 \<le> w" "RollingMean_init w = Inr rm" "window_size rm = w"
  by (cases "w < 0"; cases "w = 0") (auto simp: RollingMean_init_def)

lemma iteration_body_empty_window:
  assumes "window_size (rolling_test_loss st) = 0" "memory (rolling_test_loss st) = []"
  shows "iteration_body P epochs secs verbose clock it st = Inl IndexError"
proof -
  obtain key1 s1 s2 s3 where sp: "random_split4 P (cur_key st) = (key1, s1, s2, s3)"
    by (metis prod_cases4)
  obtain pp conv os g upd where
    up: "plan_update P s1 (cur_policy_params st) (cur_opt_state st) = (pp, conv, os, g, upd)"
    by (metis prod_cases5)
  have "RollingMean_update (rolling_test_loss st) (test_loss P s3 pp) = Inl IndexError"
    using assms by (simp add: RollingMean_update_def)
  then show ?thesis
    by (simp add: iteration_body_def Let_def sp up)
qed

lemma training_loop_empty_window:
  assumes "window_size (rolling_test_loss st) = 0" "memory (rolling_test_loss st) = []"
  shows "fst (training_loop P epochs secs verbose clock it st) = []"
  using iteration_body_empty_window[OF assms, of P epochs secs verbose clock it]
  by (simp add: training_loop.simps[of P epochs secs verbose clock it st])

lemma rolling_initial_loop_state [simp]:
  "rolling_test_loss (initial_loop_state P k guess rm) = rm"
  by (simp add: initial_loop_state_def Let_def split: option.splits prod.splits)

lemma initial_loop_state_simps [simp]:
  "cur_key (initial_loop_state P k guess rm) = fst (initial_policy P k guess)"
  "cur_policy_params (initial_loop_state P k guess rm) = fst (snd (initial_policy P k guess))"
  "cur_opt_state (initial_loop_state P k guess rm) = snd (snd (initial_policy P k guess))"
  "cur_best_loss (initial_loop_state P k guess rm) = PosInf"
  "cur_best_params (initial_loop_state P k guess rm) = fst (snd (initial_policy P k guess))"
  by (simp_all add: initial_loop_state_def Let_def split: prod.splits)

lemma initial_policy_opt_state:
  "snd (snd (initial_policy P k guess)) = optimizer_init P (fst (snd (initial_policy P k guess)))"
  by (simp add: initial_policy_def initialize_def Let_def split: option.splits prod.splits)

lemma optimize_generator_records:
  assumes "optimize_generator P k epochs secs guess verbose w clock = (recs, err)"
  obtains (none) "recs = []"
  | (run) rm where "1 \<le> w" "RollingMean_init w = Inr rm" "err = None"
      "0 < epochs \<longrightarrow> recs \<noteq> []"
      "\<forall>i<length recs. rec_ok epochs 0 PosInf (fst (snd (initial_policy P k guess))) recs i"
proof (cases w rule: RollingMean_init_cases)
  case neg
  then show ?thesis using assms none by (simp add: optimize_generator_def)
next
  case (zero rm)
  then show ?thesis
    using assms none training_loop_empty_window[of "initial_loop_state P k guess rm" P epochs secs verbose clock 0]
    by (simp add: optimize_generator_def)
next
  case (pos rm)
  show ?thesis
  proof (cases "2 \<le> verbose \<and> secs = 0")
    case True
    then obtain e where
      "iteration_body P epochs secs verbose clock 0 (initial_loop_state P k guess rm) = Inl e"
      using iteration_body_zero_budget[of verbose secs P epochs clock 0] by blast
    from training_loop_body_raises[OF this]
    show ?thesis using assms pos none by (simp add: optimize_generator_def)
  next
    case False
    then have nz: "verbose < 2 \<or> secs \<noteq> 0" by auto
    have "1 \<le> window_size (rolling_test_loss (initial_loop_state P k guess rm))"
      using pos by simp
    from training_loop_records[OF this nz, of P epochs clock 0]
    show ?thesis using assms pos run[of rm] by (auto simp: optimize_generator_def)
  qed
qed

lemma training_loop_from_body:
  assumes "cb \<in> set (fst (training_loop P epochs secs verbose clock it st))"
  shows "\<exists>it1 st0 st1. iteration_body P epochs secs verbose clock it1 st0 = Inr (cb, st1)"
  using assms
proof (induction P epochs secs verbose clock it st rule: training_loop.induct)
  case (1 P epochs secs verbose clock it st)
  note unf = training_loop.simps[of P epochs secs verbose clock it st]
  show ?case
  proof (cases "it < epochs")
    case False
    then show ?thesis using "1.prems" by (simp add: unf)
  next
    case True
    show ?thesis
    proof (cases "iteration_body P epochs secs verbose clock it st")
      case (Inl e)
      then show ?thesis using True "1.prems" by (simp add: unf)
    next
      case (Inr x)
      obtain c st1 where x: "x = (c, st1)" by (cases x)
      show ?thesis
      proof (cases "is_failure (status c)")
        case True
        then have "cb = c" using \<open>it < epochs\<close> Inr x "1.prems" by (simp add: unf)
        then show ?thesis using Inr x by blast
      next
        case False
        have "cb = c \<or> cb \<in> set (fst (training_loop P epochs secs verbose clock (it + 1) st1))"
          using \<open>it < epochs\<close> Inr x False "1.prems" by (auto simp: unf split: prod.splits)
        then show ?thesis
        proof
          assume "cb = c"
          then show ?thesis using Inr x by blast
        next
          assume "cb \<in> set (fst (training_loop P epochs secs verbose clock (it + 1) st1))"
          then show ?thesis
            using "1.IH"[OF \<open>it < epochs\<close> Inr x[symmetric] False] by blast
        qed
      qed
    qed
  qed
qed

lemma generator_records_from_body:
  assumes "cb \<in> set (fst (optimize_generator P k epochs secs guess verbose w clock))"
  shows "\<exists>it1 st0 st1. iteration_body P epochs secs verbose clock it1 st0 = Inr (cb, st1)"
  using assms training_loop_from_body[of cb P epochs secs verbose clock 0]
  by (auto simp: optimize_generator_def split: sum.splits)

lemma body_status:
  assumes "iteration_body P epochs secs verbose clock it st = Inr (cb, st1)"
  shows "status cb =
          (if np_all (grad_allclose_zero P (grad cb)) then NO_PROGRESS
           else if \<not> np_isfinite (train_return cb) then INVALID_GRADIENT
           else if it \<ge> epochs - 1 then ITER_BUDGET_REACHED
           else if elapsed_time cb \<ge> secs then TIME_BUDGET_REACHED
           else if \<not> np_all (converged_in P st) then PRECONDITION_POSSIBLY_UNSATISFIED
           else NORMAL)"
  using assms
proof (rule iteration_body_cases)
  fix key1 s1 s2 s3 pp conv os g upd tl rm1
  assume sp: "random_split4 P (cur_key st) = (key1, s1, s2, s3)"
    and up: "plan_update P s1 (cur_policy_params st) (cur_opt_state st) = (pp, conv, os, g, upd)"
    and st: "status cb =
       (if np_all (grad_allclose_zero P g) then NO_PROGRESS
        else if \<not> np_isfinite (train_loss P s2 pp) then INVALID_GRADIENT
        else if it \<ge> epochs - 1 then ITER_BUDGET_REACHED
        else if clock it \<ge> secs then TIME_BUDGET_REACHED
        else if \<not> np_all conv then PRECONDITION_POSSIBLY_UNSATISFIED
        else NORMAL)"
    and others: "elapsed_time cb = clock it" "grad cb = g"
      "train_return cb = fneg (train_loss P s2 pp)"
  have "converged_in P st = conv"
    by (simp add: converged_in_def sp up)
  then show ?thesis
    using st others by simp
qed

text \<open>
  Claim C3. In the sequence of records that \<open>optimize_generator\<close> yields, the \<open>i\<close>-th
  record is that of iteration \<open>i\<close>; a record with status \<open>TIME_BUDGET_REACHED\<close>,
  \<open>ITER_BUDGET_REACHED\<close> or \<open>INVALID_GRADIENT\<close> is the last one; and after a record
  with status \<open>NORMAL\<close>, \<open>NO_PROGRESS\<close> or \<open>PRECONDITION_POSSIBLY_UNSATISFIED\<close> the loop
  goes on to the next iteration whenever the iteration budget leaves one. So neither an
  all-zero gradient nor a projection that did not converge stops the loop.
\<close>

theorem loop_stops_exactly_after_failure_status:
  assumes "optimize_generator P k epochs secs guess verbose w clock = (recs, err)"
    and "i < length recs"
  shows "iteration (recs ! i) = int i
       \<and> (status (recs ! i) \<in> {TIME_BUDGET_REACHED, ITER_BUDGET_REACHED, INVALID_GRADIENT}
            \<longrightarrow> Suc i = length recs)
       \<and> (status (recs ! i) \<in> {NORMAL, NO_PROGRESS, PRECONDITION_POSSIBLY_UNSATISFIED}
            \<and> int i + 1 < epochs \<longrightarrow> Suc i < length recs)"
  using assms(1)
proof (cases rule: optimize_generator_records)
  case none
  then show ?thesis using assms(2) by simp
next
  case (run rm)
  then have "rec_ok epochs 0 PosInf (fst (snd (initial_policy P k guess))) recs i"
    using assms(2) by blast
  then show ?thesis
    by (cases "status (recs ! i)") (auto simp: rec_ok_def is_failure_def)
qed

text \<open>
  Claim C2, as amended. The four checks are made one after the other and each one
  overwrites the status, so the last check that matches decides. For an iteration in
  which not all gradient components are numerically zero: the status is
  \<open>INVALID_GRADIENT\<close> if the training loss is not finite; otherwise \<open>ITER_BUDGET_REACHED\<close>
  if the iteration count is reached; otherwise \<open>TIME_BUDGET_REACHED\<close> if the elapsed time
  is at least the budget; otherwise \<open>PRECONDITION_POSSIBLY_UNSATISFIED\<close> if the projection
  did not converge, and \<open>NORMAL\<close> if it did. When all gradient components are numerically
  zero and none of the three halting conditions holds, the status is \<open>NO_PROGRESS\<close>.
  (\<open>train_return\<close> is the negated training loss, finite exactly when the loss is; every
  record of \<open>optimize_generator\<close> comes from \<open>iteration_body\<close>, by lemma
  \<open>generator_records_from_body\<close>.)
\<close>

theorem status_is_last_matching_check:
  assumes "iteration_body P epochs train_seconds verbose clock it st = Inr (cb, st1)"
  shows "(\<not> np_all (grad_allclose_zero P (grad cb)) \<longrightarrow>
            status cb =
              (if \<not> np_isfinite (train_return cb) then INVALID_GRADIENT
               else if it \<ge> epochs - 1 then ITER_BUDGET_REACHED
               else if elapsed_time cb \<ge> train_seconds then TIME_BUDGET_REACHED
               else if \<not> np_all (converged_in P st) then PRECONDITION_POSSIBLY_UNSATISFIED
               else NORMAL))
       \<and> (np_all (grad_allclose_zero P (grad cb)) \<and> np_isfinite (train_return cb)
            \<and> it < epochs - 1 \<and> elapsed_time cb < train_seconds \<longrightarrow>
            status cb = NO_PROGRESS)"
  using body_status[OF assms] by simp

text \<open>
  Claim C2, witness: the first iteration of the concrete planner, with three epochs and
  a budget of ten seconds, has status \<open>NORMAL\<close>.
\<close>

theorem status_is_last_matching_check_witness:
  "status (fst (projr (iteration_body (toy_planner (Finite 1) (Finite 1) 1) 3 10 2 toy_clock 0 toy_state)))
     = NORMAL"
proof -
  have "\<exists>cb st1. iteration_body (toy_planner (Finite 1) (Finite 1) 1) 3 10 2 toy_clock 0 toy_state
          = Inr (cb, st1)"
    by (simp add: toy_defs toy_state_def)
  then obtain cb st1 where
    b: "iteration_body (toy_planner (Finite 1) (Finite 1) 1) 3 10 2 toy_clock 0 toy_state = Inr (cb, st1)"
    by blast
  have g: "\<not> np_all (grad_allclose_zero (toy_planner (Finite 1) (Finite 1) 1) (grad cb))"
    and f: "np_isfinite (train_return cb)" and e: "elapsed_time cb = 1"
    and c: "np_all (converged_in (toy_planner (Finite 1) (Finite 1) 1) toy_state)"
    using b by (auto simp: toy_defs toy_state_def converged_in_def)
  from status_is_last_matching_check[OF b] g f e c have "status cb = NORMAL"
    by simp
  then show ?thesis using b by simp
qed

text \<open>
  Claim C2, counterexample to the order as stated: with one epoch and a time budget of
  one second, the first iteration has an elapsed time of one second, which reaches the
  budget, and the record has status \<open>ITER_BUDGET_REACHED\<close>, not \<open>TIME_BUDGET_REACHED\<close>.
\<close>

theorem status_first_match_counterexample:
  "(1::real) \<le> toy_clock 0 \<and>
   map status (fst (optimize_generator (toy_planner (Finite 1) (Finite 1) 1) 0 1 1 None 2 10 toy_clock))
     = [ITER_BUDGET_REACHED]"
  by (simp add: toy_defs)

text \<open>
  Claim C3, witness: a run of three epochs of the concrete planner yields the statuses
  \<open>NORMAL\<close>, \<open>NORMAL\<close>, \<open>ITER_BUDGET_REACHED\<close>, and the theorem gives that a record follows
  the first one.
\<close>

theorem loop_stops_exactly_after_failure_status_witness:
  "map status (fst (optimize_generator (toy_planner (Finite 1) (Finite 1) 1) 0 3 10 None 2 10 toy_clock))
     = [NORMAL, NORMAL, ITER_BUDGET_REACHED]
   \<and> Suc 0 < length (fst (optimize_generator (toy_planner (Finite 1) (Finite 1) 1) 0 3 10 None 2 10 toy_clock))"
proof -
  let ?G = "optimize_generator (toy_planner (Finite 1) (Finite 1) 1) 0 3 10 None 2 10 toy_clock"
  have m: "map status (fst ?G) = [NORMAL, NORMAL, ITER_BUDGET_REACHED]"
    by (simp add: toy_defs)
  have l: "length (map status (fst ?G)) = 3" by (simp only: m) simp
  then have i: "0 < length (fst ?G)" by simp
  have "status (fst ?G ! 0) = map status (fst ?G) ! 0" using i by (simp del: map_eq_Cons_conv)
  then have s0: "status (fst ?G ! 0) = NORMAL" by (simp only: m) simp
  have e: "?G = (fst ?G, snd ?G)" by simp
  from loop_stops_exactly_after_failure_status[OF e i] s0
  have "Suc 0 < length (fst ?G)" by simp
  then show ?thesis using m by simp
qed

lemma generator_status:
  assumes "optimize_generator P k epochs secs guess verbose w clock = (recs, err)" "i < length recs"
  shows "\<not> np_all (grad_allclose_zero P (grad (recs ! i))) \<Longrightarrow>
         \<not> np_isfinite (train_return (recs ! i)) \<Longrightarrow> status (recs ! i) = INVALID_GRADIENT"
proof -
  assume a: "\<not> np_all (grad_allclose_zero P (grad (recs ! i)))"
    "\<not> np_isfinite (train_return (recs ! i))"
  have "recs ! i \<in> set (fst (optimize_generator P k epochs secs guess verbose w clock))"
    using assms by simp
  from generator_records_from_body[OF this] obtain it1 st0 st1 where
    "iteration_body P epochs secs verbose clock it1 st0 = Inr (recs ! i, st1)" by blast
  from body_status[OF this] a show ?thesis by simp
qed

lemma optimize_last:
  assumes "optimize_generator P k epochs secs guess verbose w clock = (recs, None)" "recs \<noteq> []"
  shows "optimize P k epochs secs guess verbose w clock = Inr (best_params (last recs))"
proof -
  obtain c earlier where r: "rev recs = c # earlier"
    using assms(2) by (cases "rev recs") auto
  then have "last recs = c"
    by (metis last_rev hd_rev list.sel(1) rev_rev_ident)
  then show ?thesis using assms(1) r by (simp add: optimize_def)
qed

text \<open>
  Claim C5, as amended. If the training loss of an iteration is not finite and not all
  gradient components are numerically zero, the record of that iteration has status
  \<open>INVALID_GRADIENT\<close> and is the last one, and \<open>optimize\<close> returns the best parameters of
  that record without raising. The best parameters are compared on the smoothed test
  loss, not on the training loss: they are the parameters of this iteration if its
  smoothed test loss is below the best loss so far, and the previous best parameters
  otherwise (so they stay unchanged when the test loss is NaN as well).
\<close>

theorem nonfinite_train_loss_halts:
  assumes "optimize_generator P k epochs secs guess verbose w clock = (recs, err)"
    and "i < length recs"
    and "\<not> np_isfinite (train_return (recs ! i))"
    and "\<not> np_all (grad_allclose_zero P (grad (recs ! i)))"
  shows "status (recs ! i) = INVALID_GRADIENT
       \<and> Suc i = length recs
       \<and> best_params (recs ! i) =
           (if fless (fneg (test_return (recs ! i)))
                 (if i = 0 then PosInf else fneg (best_return (recs ! (i - 1))))
            then params (recs ! i)
            else (if i = 0 then fst (snd (initial_policy P k guess))
                  else best_params (recs ! (i - 1))))
       \<and> optimize P k epochs secs guess verbose w clock = Inr (best_params (recs ! i))"
  using assms(1)
proof (cases rule: optimize_generator_records)
  case none
  then show ?thesis using assms(2) by simp
next
  case (run rm)
  have st: "status (recs ! i) = INVALID_GRADIENT"
    using generator_status[OF assms(1,2) assms(4) assms(3)] .
  have ok: "rec_ok epochs 0 PosInf (fst (snd (initial_policy P k guess))) recs i"
    using run assms(2) by blast
  have last: "Suc i = length recs"
    using ok st by (simp add: rec_ok_def is_failure_def)
  have ne: "recs \<noteq> []" using assms(2) by auto
  have "last recs = recs ! i"
    using last ne by (metis diff_Suc_1 last_conv_nth)
  then have "optimize P k epochs secs guess verbose w clock = Inr (best_params (recs ! i))"
    using optimize_last[OF _ ne, of P k epochs secs guess verbose w clock] assms(1) run(3) by simp
  then show ?thesis using st last ok by (simp add: rec_ok_def)
qed

text \<open>
  Claim C5, witness: training and test loss are NaN in the first iteration; the status is
  \<open>INVALID_GRADIENT\<close> and \<open>optimize\<close> returns the best parameters of that record.
\<close>

theorem nonfinite_train_loss_halts_witness:
  "map status (fst (optimize_generator (toy_planner NaN NaN 1) 0 3 10 (Some 0) 2 10 toy_clock))
     = [INVALID_GRADIENT]
   \<and> optimize (toy_planner NaN NaN 1) 0 3 10 (Some 0) 2 10 toy_clock
     = Inr (best_params (fst (optimize_generator (toy_planner NaN NaN 1) 0 3 10 (Some 0) 2 10 toy_clock) ! 0))"
proof -
  let ?P = "toy_planner NaN NaN 1"
  let ?G = "optimize_generator ?P 0 3 10 (Some 0) 2 10 toy_clock"
  have m: "\<exists>cb. fst ?G = [cb] \<and> \<not> np_isfinite (train_return cb) 
             \<and> \<not> np_all (grad_allclose_zero ?P (grad cb)) \<and> status cb = INVALID_GRADIENT"
    by (simp add: toy_defs)
  then obtain cb where cb: "fst ?G = [cb]" "\<not> np_isfinite (train_return cb)"
    "\<not> np_all (grad_allclose_zero ?P (grad cb))" "status cb = INVALID_GRADIENT" by blast
  have e: "?G = (fst ?G, snd ?G)" by simp
  have i: "0 < length (fst ?G)" using cb by simp
  from nonfinite_train_loss_halts[OF e i] cb
  have "optimize ?P 0 3 10 (Some 0) 2 10 toy_clock = Inr (best_params (fst ?G ! 0))"
    by simp
  then show ?thesis using cb by simp
qed

text \<open>
  Claim C5, counterexample: the training loss of the first iteration is NaN and its test
  loss is 5. The best parameters before the iteration are the guess 0; the iteration
  replaces them by its own parameters \<open>-1\<close>, and \<open>optimize\<close> returns those.
\<close>

theorem nonfinite_train_loss_best_params_counterexample:
  "map train_return (fst (optimize_generator (toy_planner NaN (Finite 5) 1) 0 3 10 (Some 0) 2 10 toy_clock))
     = [NaN]
   \<and> fst (snd (initial_policy (toy_planner NaN (Finite 5) 1) 0 (Some 0))) = 0
   \<and> map best_params (fst (optimize_generator (toy_planner NaN (Finite 5) 1) 0 3 10 (Some 0) 2 10 toy_clock))
     = [- 1]
   \<and> optimize (toy_planner NaN (Finite 5) 1) 0 3 10 (Some 0) 2 10 toy_clock = Inr (- 1)"
  by (simp add: toy_defs optimize_def)

text \<open>
  Claim C8, as amended. With \<open>epochs = 1\<close>, a rolling window of at least one and a
  time budget that is not zero when the progress bar is shown (\<open>verbose >= 2\<close>),
  \<open>optimize_generator\<close> yields exactly one record and raises nothing; the parameters of
  the record are the initial parameters after one optimizer update and the projection;
  and, when not all gradient components are numerically zero, its status is
  \<open>ITER_BUDGET_REACHED\<close> if the training loss is finite and \<open>INVALID_GRADIENT\<close>
  otherwise.
\<close>

theorem single_epoch_single_update:
  assumes "1 \<le> w"
    and "verbose < 2 \<or> secs \<noteq> 0"
    and "optimize_generator P k 1 secs guess verbose w clock = (recs, err)"
  shows "length recs = 1 \<and> err = None
       \<and> params (recs ! 0) =
           (let (key1, p0, os0) = initial_policy P k guess;
                (key2, subkey1, subkey2, subkey3) = random_split4 P key1;
                (upd, os1) = optimizer_update P (grad_fn P subkey1 p0) (optimizer_init P p0)
            in fst (projection P (apply_updates P p0 upd)))
       \<and> (\<not> np_all (grad_allclose_zero P (grad (recs ! 0))) \<longrightarrow>
            status (recs ! 0) =
              (if np_isfinite (train_return (recs ! 0)) then ITER_BUDGET_REACHED
               else INVALID_GRADIENT))"
proof -
  obtain rm where rm: "RollingMean_init w = Inr rm" "window_size rm = w"
    using assms(1) by (cases w rule: RollingMean_init_cases) auto
  let ?st = "initial_loop_state P k guess rm"
  have w1: "1 \<le> window_size (rolling_test_loss ?st)" using rm assms(1) by simp
  obtain cb st1 where body: "iteration_body P 1 secs verbose clock 0 ?st = Inr (cb, st1)"
    using iteration_body_ok[OF w1 assms(2)] by blast
  have stat: "status cb =
          (if np_all (grad_allclose_zero P (grad cb)) then NO_PROGRESS
           else if \<not> np_isfinite (train_return cb) then INVALID_GRADIENT
           else ITER_BUDGET_REACHED)"
    using body_status[OF body] by simp
  have "training_loop P 1 secs verbose clock 1 st1 = ([], None)"
    by (simp add: training_loop.simps[of P 1 secs verbose clock 1 st1])
  then have "training_loop P 1 secs verbose clock 0 ?st = ([cb], None)"
    using body by (simp add: training_loop.simps[of P 1 secs verbose clock 0 ?st])
  then have recs: "recs = [cb]" "err = None"
    using assms(3) rm by (simp_all add: optimize_generator_def)
  obtain key1 p0 os0 where ip: "initial_policy P k guess = (key1, p0, os0)"
    by (metis prod_cases3)
  have os0: "os0 = optimizer_init P p0"
    using initial_policy_opt_state[of P k guess] ip by simp
  have par: "params cb =
           (let (key2, subkey1, subkey2, subkey3) = random_split4 P key1;
                (upd, os1) = optimizer_update P (grad_fn P subkey1 p0) (optimizer_init P p0)
            in fst (projection P (apply_updates P p0 upd)))"
    using body
    by (rule iteration_body_cases)
       (auto simp: ip os0 plan_update_def Let_def split: prod.splits)
  show ?thesis
    using recs stat par by (simp add: ip)
qed

text \<open>
  Claim C8, witness: one epoch of the concrete planner from the guess 5 yields one
  record, with status \<open>ITER_BUDGET_REACHED\<close> and parameters 4.
\<close>

theorem single_epoch_single_update_witness:
  "(1::int) \<le> 10
   \<and> map status (fst (optimize_generator (toy_planner (Finite 1) (Finite 1) 1) 0 1 10 (Some 5) 2 10 toy_clock))
       = [ITER_BUDGET_REACHED]
   \<and> map params (fst (optimize_generator (toy_planner (Finite 1) (Finite 1) 1) 0 1 10 (Some 5) 2 10 toy_clock))
       = [4]"
proof -
  let ?P = "toy_planner (Finite 1) (Finite 1) 1"
  let ?G = "optimize_generator ?P 0 1 10 (Some 5) 2 10 toy_clock"
  have h: "(1::int) \<le> 10" by simp
  have nz: "(2::int) < 2 \<or> (10::real) \<noteq> 0" by simp
  have e: "?G = (fst ?G, snd ?G)" by simp
  note t = single_epoch_single_update[OF h nz e]
  then obtain cb where cb: "fst ?G = [cb]"
    by (cases "fst ?G") auto
  have g: "\<not> np_all (grad_allclose_zero ?P (grad cb))" "np_isfinite (train_return cb)"
    using cb by (auto simp: toy_defs)
  have "status cb = ITER_BUDGET_REACHED" using t cb g by simp
  moreover have "params cb = 4"
    using t cb by (simp add: toy_planner_def initial_policy_def)
  ultimately show ?thesis using cb by simp
qed

text \<open>
  Claim C8, counterexample: one epoch with a NaN training loss yields a record with
  status \<open>INVALID_GRADIENT\<close>, not \<open>ITER_BUDGET_REACHED\<close>.
\<close>

theorem single_epoch_status_counterexample:
  "map status (fst (optimize_generator (toy_planner NaN NaN 1) 0 1 10 None 2 10 toy_clock))
     = [INVALID_GRADIENT]"
  by (simp add: toy_defs)

text \<open>
  The case that the statements above leave out: the check for an all-zero gradient
  comes last and overwrites a status that would end the loop. Here the time
  budget is reached in every iteration and the gradient is zero: all three epochs run,
  each with status \<open>NO_PROGRESS\<close>.
\<close>

lemma zero_gradient_overwrites_time_budget:
  "map status (fst (optimize_generator (toy_planner (Finite 1) (Finite 1) 0) 0 3 1 None 2 10 toy_clock))
     = [NO_PROGRESS, NO_PROGRESS, NO_PROGRESS]"
  by (simp add: toy_defs)

text \<open>
  With the progress bar (\<open>verbose >= 2\<close>, the default) a time budget of zero makes the
  first iteration raise before it yields anything; without the progress bar the same
  call yields its record.
\<close>

lemma zero_time_budget_raises_under_progress_bar:
  "optimize_generator (toy_planner (Finite 1) (Finite 1) 1) 0 1 0 None 2 10 toy_clock
     = ([], Some ZeroDivisionError)
   \<and> map status (fst (optimize_generator (toy_planner (Finite 1) (Finite 1) 1) 0 1 0 None 0 10 toy_clock))
     = [ITER_BUDGET_REACHED]"
  by (simp add: toy_defs)

section \<open>Properties of the entropic utility\<close>

lemma sum_list_exp_pos:
  assumes "rs \<noteq> []"
  shows "0 < sum_list (map (\<lambda>r. exp (f r)) rs :: real list)"
  using assms
proof (induction rs)
  case Nil
  then show ?case by simp
next
  case (Cons r rs)
  show ?case
  proof (cases "rs = []")
    case True
    then show ?thesis by simp
  next
    case False
    then have "0 < sum_list (map (\<lambda>r. exp (f r)) rs)" using Cons.IH by simp
    moreover have "0 < exp (f r)" by simp
    ultimately show ?thesis by (simp add: add_pos_pos)
  qed
qed

lemma logsumexp_weight:
  assumes "a \<noteq> []" "0 < b"
  shows "logsumexp a b = ln (sum_list (map exp a)) + ln b"
proof -
  have s: "sum_list (map (\<lambda>x. b * exp x) a) = b * sum_list (map exp a)"
    by (simp add: sum_list_const_mult)
  have "0 < sum_list (map (\<lambda>r. exp r) a)"
    using sum_list_exp_pos[OF assms(1), of "\<lambda>r. r"] by simp
  then show ?thesis
    using assms(2) by (simp add: logsumexp_def s ln_mult)
qed

text \<open>
  Claim C7, as amended. \<open>entropic_utility\<close> weights every return by \<open>1 / n\<close>, where
  \<open>n\<close> is the number of returns: for a non-empty array and \<open>\<beta> > 0\<close> it is
  \<open>(-1/\<beta>) * (ln (\<Sum>i. exp (-\<beta> * returns i)) - ln n)\<close>, the logarithm of the mean and not
  of the sum of the exponentials. It exceeds the formula without the weight by
  \<open>ln n / \<beta>\<close>.
\<close>

theorem entropic_utility_is_log_mean_exp:
  assumes "returns \<noteq> []" and "0 < beta"
  shows "entropic_utility returns beta =
           (- 1 / beta) * ln (sum_list (map (\<lambda>r. exp (- beta * r)) returns) / real (length returns))
       \<and> entropic_utility returns beta =
           entropic_utility_unweighted returns beta + ln (real (length returns)) / beta"
proof -
  let ?a = "map (\<lambda>r. - beta * r) returns"
  let ?S = "sum_list (map (\<lambda>r. exp (- beta * r)) returns)"
  have n: "0 < real (length returns)" using assms(1) by simp
  have S: "0 < ?S" using sum_list_exp_pos[OF assms(1), of "\<lambda>r. - beta * r"] by simp
  have m: "map exp ?a = map (\<lambda>r. exp (- beta * r)) returns" by (simp add: comp_def)
  have "logsumexp ?a (1 / real (length returns)) =
          ln (sum_list (map exp ?a)) + ln (1 / real (length returns))"
    using assms(1) n by (intro logsumexp_weight) auto
  also have "ln (1 / real (length returns)) = - ln (real (length returns))"
    using n by (simp add: ln_div)
  finally have l: "logsumexp ?a (1 / real (length returns)) = ln ?S - ln (real (length returns))"
    by (simp add: comp_def)
  have d: "ln (?S / real (length returns)) = ln ?S - ln (real (length returns))"
    using S n by (simp add: ln_div)
  have "entropic_utility returns beta = (- 1 / beta) * ln (?S / real (length returns))"
    unfolding entropic_utility_def l d ..
  moreover have "entropic_utility returns beta =
           entropic_utility_unweighted returns beta + ln (real (length returns)) / beta"
    unfolding entropic_utility_def entropic_utility_unweighted_def l
    using assms(2) by (simp add: field_simps)
  ultimately show ?thesis by simp
qed

text \<open>
  Claim C7, witness: for the returns 1 and 3 and \<open>\<beta> = 2\<close> the utility is
  \<open>(-1/2) * ln ((exp (-2) + exp (-6)) / 2)\<close>.
\<close>

theorem entropic_utility_is_log_mean_exp_witness:
  "[1, 3] \<noteq> ([] :: real list) \<and> (0::real) < 2 \<and>
   entropic_utility [1, 3] 2 = (- 1 / 2) * ln ((exp (- 2) + exp (- 6)) / 2)"
  using entropic_utility_is_log_mean_exp[of "[1, 3]" 2] by simp

text \<open>
  Claim C7, counterexample: for the two returns 0 and 0 and \<open>\<beta> = 1\<close> the function
  returns 0, while the formula without the weight gives \<open>- ln 2\<close>.
\<close>

theorem entropic_utility_unweighted_counterexample:
  "entropic_utility [0, 0] 1 = 0 \<and> entropic_utility_unweighted [0, 0] 1 = - ln 2
   \<and> entropic_utility [0, 0] 1 \<noteq> entropic_utility_unweighted [0, 0] 1"
proof -
  have a: "entropic_utility [0, 0] 1 = 0"
    by (simp add: entropic_utility_def logsumexp_def)
  have b: "entropic_utility_unweighted [0, 0] 1 = - ln 2"
    by (simp add: entropic_utility_unweighted_def)
  have "ln (2::real) > 0" by simp
  then show ?thesis using a b by simp
qed

section \<open>Properties of the straight-line plan\<close>

text \<open>
  Claim C6. For a boolean action variable, in both modes (\<open>wrap_sigmoid\<close> with a
  positive weight, and no wrapping), mapping an action value strictly between
  \<open>min_action_prob\<close> and \<open>1 - min_action_prob\<close> to a parameter and back gives the action
  value again. Parameters and actions are real numbers here, so the two sides are equal,
  not only close. With \<open>wrap_sigmoid\<close> the bound \<open>min_action_prob\<close> is not negative (the
  constructor documents it as positive), so that the action lies strictly between 0 and 1.
\<close>

theorem bool_action_param_roundtrip:
  assumes "wrap_sigmoid env \<longrightarrow> 0 < hp var \<and> 0 \<le> min_action_prob env"
    and "min_action_prob env < a" and "a < 1 - min_action_prob env"
  shows "jax_bool_param_to_action env var (jax_bool_action_to_param env var a hp) hp = a"
proof (cases "wrap_sigmoid env")
  case False
  then show ?thesis
    by (simp add: jax_bool_param_to_action_def jax_bool_action_to_param_def)
next
  case True
  then have w: "0 < hp var" and a0: "0 < a" and a1: "a < 1"
    using assms by auto
  have pos: "0 < 1 / a - 1" using a0 a1 by (simp add: field_simps)
  have "hp var * (- 1 / hp var * ln (1 / a - 1)) = - ln (1 / a - 1)"
    using w by simp
  then have "sigmoid (hp var * (- 1 / hp var * ln (1 / a - 1))) = 1 / (1 + (1 / a - 1))"
    using pos by (simp add: sigmoid_def)
  also have "\<dots> = a" using a0 by simp
  finally show ?thesis
    using True by (simp add: jax_bool_param_to_action_def jax_bool_action_to_param_def Let_def)
qed


text \<open>
  Claim C6, witness: with the sigmoid and weight 1, the action \<open>1/2\<close> is mapped to the
  parameter 0 and back to \<open>1/2\<close>.
\<close>

theorem bool_action_param_roundtrip_witness:
  "wrap_sigmoid example_env
   \<and> 0 < example_hyperparams ''a'' \<and> 0 \<le> min_action_prob example_env
   \<and> min_action_prob example_env < 1 / 2 \<and> 1 / 2 < 1 - min_action_prob example_env
   \<and> jax_bool_action_to_param example_env ''a'' (1 / 2) example_hyperparams = 0
   \<and> jax_bool_param_to_action example_env ''a'' 0 example_hyperparams = 1 / 2"
proof -
  have h1: "wrap_sigmoid example_env \<longrightarrow>
      0 < example_hyperparams ''a'' \<and> 0 \<le> min_action_prob example_env"
    by (simp add: example_env_def example_hyperparams_def)
  have h2: "min_action_prob example_env < 1 / 2" by (simp add: example_env_def)
  have h3: "1 / 2 < 1 - min_action_prob example_env" by (simp add: example_env_def)
  have p: "jax_bool_action_to_param example_env ''a'' (1 / 2) example_hyperparams = 0"
    by (simp add: jax_bool_action_to_param_def example_env_def example_hyperparams_def)
  have h0: "wrap_sigmoid example_env \<and> 0 < example_hyperparams ''a''
            \<and> 0 \<le> min_action_prob example_env"
    by (simp add: example_env_def example_hyperparams_def)
  from bool_action_param_roundtrip[of example_env example_hyperparams "''a''" "1 / 2", OF h1 h2 h3]
    p h0 h2 h3
  show ?thesis by simp
qed

lemma subtract_surplus_counter:
  "fst (jax_wrapped_sogbofa_subtract_surplus env v) = fst v + 1"
  by (cases v) (simp add: jax_wrapped_sogbofa_subtract_surplus_def Let_def)

lemma sogbofa_while_loop_iterates:
  "\<exists>n. sogbofa_while_loop env v = ((jax_wrapped_sogbofa_subtract_surplus env) ^^ n) v
       \<and> fst (sogbofa_while_loop env v) = fst v + int n
       \<and> (0 < n \<longrightarrow> fst v + int n \<le> max_constraint_iter env)
       \<and> \<not> jax_wrapped_sogbofa_continue env (sogbofa_while_loop env v)"
proof (induction env v rule: sogbofa_while_loop.induct)
  case (1 env v)
  note unf = sogbofa_while_loop.simps[of env v]
  show ?case
  proof (cases "jax_wrapped_sogbofa_continue env v")
    case False
    then have "sogbofa_while_loop env v = v" by (simp add: unf)
    then show ?thesis using False by (intro exI[of _ 0]) simp
  next
    case True
    let ?v1 = "jax_wrapped_sogbofa_subtract_surplus env v"
    have lt: "fst v < max_constraint_iter env"
      using True by (cases v) (simp add: jax_wrapped_sogbofa_continue_def)
    from "1.IH"[OF True] obtain n where
      n: "sogbofa_while_loop env ?v1 = ((jax_wrapped_sogbofa_subtract_surplus env) ^^ n) ?v1"
         "fst (sogbofa_while_loop env ?v1) = fst ?v1 + int n"
         "0 < n \<longrightarrow> fst ?v1 + int n \<le> max_constraint_iter env"
         "\<not> jax_wrapped_sogbofa_continue env (sogbofa_while_loop env ?v1)"
      by blast
    have w: "sogbofa_while_loop env v = sogbofa_while_loop env ?v1"
      using True by (simp add: unf)
    have "sogbofa_while_loop env v = ((jax_wrapped_sogbofa_subtract_surplus env) ^^ Suc n) v"
      using w n(1) by (simp add: funpow_swap1)
    moreover have "fst (sogbofa_while_loop env v) = fst v + int (Suc n)"
      using w n(2) by (simp add: subtract_surplus_counter)
    moreover have "fst v + int (Suc n) \<le> max_constraint_iter env"
      using n(3) lt by (cases n) (simp_all add: subtract_surplus_counter)
    moreover have "\<not> jax_wrapped_sogbofa_continue env (sogbofa_while_loop env v)"
      using w n(4) by simp
    ultimately show ?thesis by (intro exI[of _ "Suc n"]) simp
  qed
qed

text \<open>
  Claim C4. The counter of the loop of the iterative projection is the number of passes
  through its body: the values at the end of the loop are the initial values after that
  many applications of the body. For a cap that is not negative the counter is at most
  \<open>max_constraint_iter\<close>; the flag returned is true exactly when the surplus at the end
  of the loop is not positive; and it is false exactly when the counter has reached the
  cap while the surplus is still positive.
\<close>

theorem sogbofa_project_bounded_iterations:
  assumes "0 \<le> max_constraint_iter env"
  shows "0 \<le> fst (sogbofa_exit env ps hp)
       \<and> fst (sogbofa_exit env ps hp) \<le> max_constraint_iter env
       \<and> sogbofa_exit env ps hp =
           ((jax_wrapped_sogbofa_subtract_surplus env) ^^ nat (fst (sogbofa_exit env ps hp)))
             (0, ps, hp, jax_wrapped_sogbofa_surplus env ps hp)
       \<and> jax_wrapped_sogbofa_project env ps hp =
           (fst (snd (sogbofa_exit env ps hp)), \<not> snd (snd (snd (sogbofa_exit env ps hp))) > 0)
       \<and> (\<not> snd (jax_wrapped_sogbofa_project env ps hp) \<longleftrightarrow>
            fst (sogbofa_exit env ps hp) = max_constraint_iter env
            \<and> snd (snd (snd (sogbofa_exit env ps hp))) > 0)"
proof -
  let ?v0 = "(0, ps, hp, jax_wrapped_sogbofa_surplus env ps hp)"
  let ?ex = "sogbofa_exit env ps hp"
  obtain n where
    n: "sogbofa_while_loop env ?v0 = ((jax_wrapped_sogbofa_subtract_surplus env) ^^ n) ?v0"
       "fst (sogbofa_while_loop env ?v0) = fst ?v0 + int n"
       "0 < n \<longrightarrow> fst ?v0 + int n \<le> max_constraint_iter env"
       "\<not> jax_wrapped_sogbofa_continue env (sogbofa_while_loop env ?v0)"
    using sogbofa_while_loop_iterates[of env ?v0] by blast
  have c: "fst ?ex = int n" using n(2) by (simp add: sogbofa_exit_def)
  have le: "fst ?ex \<le> max_constraint_iter env"
    using n(3) c assms by (cases n) simp_all
  have it: "?ex = ((jax_wrapped_sogbofa_subtract_surplus env) ^^ nat (fst ?ex)) ?v0"
    using n(1) c by (simp add: sogbofa_exit_def)
  have pr: "jax_wrapped_sogbofa_project env ps hp =
           (fst (snd ?ex), \<not> snd (snd (snd ?ex)) > 0)"
    by (simp add: jax_wrapped_sogbofa_project_def sogbofa_exit_def Let_def split: prod.splits)
  have stop: "\<not> (fst ?ex < max_constraint_iter env \<and> snd (snd (snd ?ex)) > 0)"
    using n(4) by (simp add: sogbofa_exit_def jax_wrapped_sogbofa_continue_def split: prod.splits)
  have "(\<not> snd (jax_wrapped_sogbofa_project env ps hp)) \<longleftrightarrow>
          (fst ?ex = max_constraint_iter env \<and> snd (snd (snd ?ex)) > 0)"
    using stop le by (auto simp: pr)
  then show ?thesis using c le it pr by simp
qed

lemmas sog_defs = sogbofa_example_env_def sogbofa_example_params_def
  jax_wrapped_sogbofa_surplus_def jax_wrapped_sogbofa_continue_def
  jax_wrapped_sogbofa_subtract_surplus_def jax_bool_param_to_action_def
  jax_bool_action_to_param_def jnp_clip_def min_action_def max_action_def Let_def

text \<open>
  Claim C4, witness: two entries 0.9 and 0.8 with at most one action allowed. One pass
  lowers them to 0.55 and 0.45 and the projection reports success.
\<close>

theorem sogbofa_project_bounded_iterations_witness:
  "0 \<le> max_constraint_iter sogbofa_example_env
   \<and> fst (sogbofa_exit sogbofa_example_env sogbofa_example_params example_hyperparams)
       \<le> max_constraint_iter sogbofa_example_env
   \<and> jax_wrapped_sogbofa_project sogbofa_example_env sogbofa_example_params example_hyperparams
       = ([(''a'', [11 / 20, 9 / 20])], True)"
proof -
  have h: "0 \<le> max_constraint_iter sogbofa_example_env"
    by (simp add: sogbofa_example_env_def)
  have r: "jax_wrapped_sogbofa_project sogbofa_example_env sogbofa_example_params example_hyperparams
       = ([(''a'', [11 / 20, 9 / 20])], True)"
    by (simp add: jax_wrapped_sogbofa_project_def sogbofa_while_loop.simps sog_defs)
  from sogbofa_project_bounded_iterations[OF h, of sogbofa_example_params example_hyperparams] h r
  show ?thesis by simp
qed

lemma slp_compile_sorting:
  assumes "slp_compile cfg rddl hor = Inr (env, SortingProjection)"
  shows "ranges env = variable_ranges rddl"
    and "allowed_actions env = max_allowed_actions rddl"
    and "max_allowed_actions rddl < int (fst (count_bool_actions rddl))"
    and "use_new_projection cfg" and "\<not> wrap_softmax cfg"
  using assms
  by (auto simp: slp_compile_def count_bool_actions_def Let_def
           split: sum.splits if_splits)

lemma sum_sizes_mset:
  "sum_list (map (\<lambda>(var, n). n) (filter (\<lambda>(var, n). P var) xs)) =
   sum_mset (image_mset snd (filter_mset (\<lambda>x. P (fst x)) (mset xs)))"
  by (induction xs) auto

lemma count_bool_actions_sizes:
  "fst (count_bool_actions rddl) =
   sum_list (map (\<lambda>(var, n). n)
     (filter (\<lambda>(var, n). variable_ranges rddl var = ''bool'')
        (map (\<lambda>(var, values). (var, np_size values)) (action_fluents rddl))))"
  by (simp add: count_bool_actions_def Let_def filter_map comp_def case_prod_unfold)

lemma length_sorting_scores:
  "length (concat (sorting_scores env ps)) =
   sum_list (map (\<lambda>(var, n). n)
     (filter (\<lambda>(var, n). ranges env var = ''bool'')
        (map (\<lambda>(var, param). (var, length param)) ps)))"
  by (induction ps) (auto simp: sorting_scores_def)

lemma scores_count:
  assumes "shaped_like_action_fluents rddl ps" "ranges env = variable_ranges rddl"
  shows "length (concat (sorting_scores env ps)) = fst (count_bool_actions rddl)"
  using assms
  unfolding length_sorting_scores count_bool_actions_sizes sum_sizes_mset
    shaped_like_action_fluents_def
  by simp


text \<open>
  Claim C10. When \<open>compile\<close> installs the sort-based projection, the bound
  \<open>allowed_actions\<close> is below the number of boolean action entries. For parameters of
  the shape of the action fluents the scores have exactly that many entries, so the index
  \<open>allowed_actions\<close> (not negative, as a count of actions is) lies inside the sorted
  scores, and the projection returns a result, with the flag true, and no error.
\<close>

theorem sorting_projection_index_in_range:
  assumes "slp_compile cfg rddl hor = Inr (env, SortingProjection)"
    and "0 \<le> max_allowed_actions rddl"
    and "shaped_like_action_fluents rddl ps"
  shows "allowed_actions env < int (fst (count_bool_actions rddl))
       \<and> length (concat (sorting_scores env ps)) = fst (count_bool_actions rddl)
       \<and> (\<exists>x. array_index (rev (sort (concat (sorting_scores env ps)))) (allowed_actions env) = Inr x)
       \<and> (\<exists>new_params. jax_wrapped_sorting_project env ps hp = Inr (new_params, True))"
proof -
  note c = slp_compile_sorting[OF assms(1)]
  have len: "length (concat (sorting_scores env ps)) = fst (count_bool_actions rddl)"
    using scores_count[OF assms(3) c(1)] .
  have k: "0 \<le> allowed_actions env"
    "allowed_actions env < int (length (concat (sorting_scores env ps)))"
    using c(2,3) assms(2) len by simp_all
  have ne: "sorting_scores env ps \<noteq> []"
    using k by auto
  have idx: "array_index (rev (sort (concat (sorting_scores env ps)))) (allowed_actions env) =
          Inr (rev (sort (concat (sorting_scores env ps))) ! nat (allowed_actions env))"
    using k by (simp add: array_index_def)
  have "\<exists>new_params. jax_wrapped_sorting_project env ps hp = Inr (new_params, True)"
    using ne idx by (simp add: jax_wrapped_sorting_project_def Let_def)
  then show ?thesis using c(2,3) len idx by simp
qed

lemma example_compile:
  "slp_compile example_config example_rddl 1 = Inr (example_env, SortingProjection)"
  by (simp add: slp_compile_def example_config_def example_rddl_def example_env_def
        count_bool_actions_def Let_def)

text \<open>
  Claim C10, witness: the model with one boolean action fluent with two groundings and
  at most one action.
\<close>

theorem sorting_projection_index_in_range_witness:
  "0 \<le> max_allowed_actions example_rddl
   \<and> shaped_like_action_fluents example_rddl [(''a'', [- 2, - 1])]
   \<and> allowed_actions example_env < int (fst (count_bool_actions example_rddl))
   \<and> length (concat (sorting_scores example_env [(''a'', [- 2, - 1])])) = 2"
proof -
  have h1: "0 \<le> max_allowed_actions example_rddl" by (simp add: example_rddl_def)
  have h2: "shaped_like_action_fluents example_rddl [(''a'', [- 2, - 1])]"
    by (simp add: shaped_like_action_fluents_def example_rddl_def)
  have n: "fst (count_bool_actions example_rddl) = 2"
    by (simp add: count_bool_actions_def example_rddl_def)
  from sorting_projection_index_in_range[OF example_compile h1 h2] n h1 h2
  show ?thesis by simp
qed

lemma ln_999999: "2 \<le> ln (999999::real)"
proof -
  have "exp (2::real) = exp 1 * exp 1"
    by (simp add: exp_add[symmetric])
  also have "\<dots> \<le> 3 * 3"
    by (intro mult_mono exp_le) simp_all
  finally have "exp (2::real) \<le> 999999" by simp
  then have "ln (exp (2::real)) \<le> ln 999999"
    by (subst ln_le_cancel_iff) simp_all
  then show ?thesis by simp
qed

lemma example_box:
  "jax_bool_action_to_param example_env var (min_action example_env) example_hyperparams = - ln 999999"
  "jax_bool_action_to_param example_env var (max_action example_env) example_hyperparams = ln 999999"
proof -
  show "jax_bool_action_to_param example_env var (min_action example_env) example_hyperparams = - ln 999999"
    by (simp add: jax_bool_action_to_param_def min_action_def example_env_def example_hyperparams_def)
  have "1 / (1 - 1 / 1000000) - 1 = (1 / 999999 :: real)" by simp
  then have "ln (1 / (1 - 1 / 1000000) - 1) = - ln (999999::real)"
    by (simp add: ln_div)
  then show "jax_bool_action_to_param example_env var (max_action example_env) example_hyperparams = ln 999999"
    by (simp add: jax_bool_action_to_param_def max_action_def min_action_def example_env_def
          example_hyperparams_def)
qed

lemma example_clip:
  assumes "- 2 \<le> x" "x \<le> 2"
  shows "jnp_clip x (- ln 999999) (ln 999999) = x"
  using assms ln_999999 by (simp add: jnp_clip_def)

lemma example_box_step:
  "jax_wrapped_slp_project_to_box example_env [(''a'', [- 2, - 1])] example_hyperparams
     = ([(''a'', [- 2, - 1])], True)"
  by (simp add: jax_wrapped_slp_project_to_box_def jax_project_bool_to_box_def example_box
        example_clip Let_def bool_key_def)
     (simp add: example_env_def)

lemma example_sorting_step:
  "jax_wrapped_sorting_project example_env [(''a'', [- 2, - 1])] example_hyperparams
     = Inr ([(''a'', [- 1, 0])], True)"
proof -
  have sc: "sorting_scores example_env [(''a'', [- 2, - 1])] = [ [2, 1] ]"
    by (simp add: sorting_scores_def example_env_def)
  have so: "rev (sort (concat [ [2, 1 :: real] ])) = [2, 1]" by simp
  have ix: "array_index [2, 1 :: real] (allowed_actions example_env) = Inr 1"
    by (simp add: array_index_def example_env_def)
  have th: "bool_threshold example_env = 0" by (simp add: bool_threshold_def example_env_def)
  have rn: "ranges example_env ''a'' = ''bool''" "noop example_env ''a''"
    by (simp_all add: example_env_def)
  show ?thesis
    unfolding jax_wrapped_sorting_project_def sc Let_def so
    by (simp add: ix th rn jax_project_bool_to_box_def example_box example_clip)
qed

text \<open>
  Claim C1, evaluated at an input where it fails. The action fluent \<open>a\<close> has two
  groundings, the default value true and at most one action that is not the default. The
  parameters \<open>-2\<close> and \<open>-1\<close> at the only time step are projected to \<open>-1\<close> and \<open>0\<close>, and
  the projection reports success. Both test actions are then false, which is not the
  default value: two actions are active where one is allowed. The entry with the
  (K+1)-th largest score is moved exactly onto the threshold, and the strict comparison
  of the test policy makes it false; for a default value false that is inactive, for a
  default value true it is active.
\<close>

theorem sorting_projection_exceeds_bound_for_true_noop:
  "slp_compile example_config example_rddl 1 = Inr (example_env, SortingProjection)
   \<and> sorting_project_to_max_constraint example_env example_params example_hyperparams
       = Inr ([(''a'', [ [- 1, 0] ])], [True])
   \<and> jax_wrapped_slp_predict_test example_env [(''a'', [ [- 1, 0] ])] example_hyperparams 0
       = [(''a'', BoolAction [False, False])]
   \<and> active_entries example_env
        (jax_wrapped_slp_predict_test example_env [(''a'', [ [- 1, 0] ])] example_hyperparams 0) = 2
   \<and> allowed_actions example_env = 1"
proof -
  have ps: "param_step example_params 0 = [(''a'', [- 2, - 1])]"
    by (simp add: param_step_def example_params_def)
  have h: "horizon example_env = 1" by (simp add: example_env_def)
  have box: "slp_project_to_box example_env example_params example_hyperparams
               = (example_params, True)"
    by (simp add: slp_project_to_box_def h ps example_box_step stack_steps_def)
       (simp add: example_params_def)
  have proj: "sorting_project_to_max_constraint example_env example_params example_hyperparams
       = Inr ([(''a'', [ [- 1, 0] ])], [True])"
    by (simp add: sorting_project_to_max_constraint_def box vmap_over_horizon_def h ps
          example_sorting_step stack_steps_def)
       (simp add: example_params_def)
  have test: "jax_wrapped_slp_predict_test example_env [(''a'', [ [- 1, 0] ])] example_hyperparams 0
       = [(''a'', BoolAction [False, False])]"
    by (simp add: jax_wrapped_slp_predict_test_def bool_threshold_def example_env_def)
  have act: "active_entries example_env [(''a'', BoolAction [False, False])] = 2"
    by (simp add: example_env_def)
  show ?thesis
    using example_compile proj test act by (simp add: example_env_def)
qed

text \<open>
  The same bound does hold for the variables whose default value is false. The lemmas up
  to \<open>sorting_projection_bound_for_false_noop\<close> prove it: if no boolean variable has the
  default value true, the probability bound lies in \<open>(0, 1/2]\<close> and the weights are
  positive, then after the sort-based projection at most \<open>allowed_actions\<close> entries are
  active at every time step, and every flag is true. First: at most \<open>k\<close> entries of a list
  are above the entry at index \<open>k\<close> of the list sorted in descending order.
\<close>

lemma filter_above_kth:
  fixes xs :: "real list"
  assumes "k < length xs"
  shows "length (filter (\<lambda>x. x > rev (sort xs) ! k) xs) \<le> k"
proof -
  let ?d = "rev (sort xs)"
  let ?P = "\<lambda>x. x > ?d ! k"
  have desc: "sorted_wrt (\<lambda>x y. y \<le> x) ?d"
    using sorted_sort[of xs] by (simp add: sorted_wrt_rev)
  have len: "length ?d = length xs" by simp
  have "mset (filter ?P xs) = mset (filter ?P ?d)"
    by (simp add: mset_filter)
  then have "length (filter ?P xs) = length (filter ?P ?d)"
    by (metis size_mset)
  also have "filter ?P ?d = filter ?P (take k ?d) @ filter ?P (drop k ?d)"
    by (metis append_take_drop_id filter_append)
  also have "filter ?P (drop k ?d) = []"
  proof -
    have "\<not> ?P y" if "y \<in> set (drop k ?d)" for y
    proof -
      from that obtain j where j: "j < length (drop k ?d)" "y = drop k ?d ! j"
        by (auto simp: in_set_conv_nth)
      then have yj: "y = ?d ! (k + j)" and kj: "k + j < length ?d" by auto
      have "?d ! (k + j) \<le> ?d ! k"
      proof (cases "j = 0")
        case True
        then show ?thesis by simp
      next
        case False
        then have "k < k + j" by simp
        from sorted_wrt_nth_less[OF desc this kj] show ?thesis .
      qed
      then show ?thesis using yj by simp
    qed
    then show ?thesis by (simp add: filter_empty_conv)
  qed
  finally have "length (filter ?P xs) = length (filter ?P (take k ?d))" by simp
  also have "\<dots> \<le> length (take k ?d)" by (rule length_filter_le)
  also have "\<dots> \<le> k" by simp
  finally show ?thesis .
qed

lemma length_filter_map_le:
  assumes "\<And>x. x \<in> set xs \<Longrightarrow> P (f x) \<Longrightarrow> Q x"
  shows "length (filter P (map f xs)) \<le> length (filter Q xs)"
  using assms by (induction xs) auto

lemma box_lower_le_threshold:
  assumes "0 < min_action_prob env" "min_action_prob env \<le> 1 / 2"
    and "wrap_sigmoid env \<longrightarrow> 0 < hp var"
  shows "jax_bool_action_to_param env var (min_action env) hp \<le> bool_threshold env"
proof (cases "wrap_sigmoid env")
  case False
  then show ?thesis
    using assms(2) by (simp add: jax_bool_action_to_param_def min_action_def bool_threshold_def)
next
  case True
  let ?m = "min_action_prob env"
  have "1 \<le> 1 / ?m - 1" using assms(1,2) by (simp add: field_simps)
  then have "0 \<le> ln (1 / ?m - 1)" by simp
  moreover have "0 < hp var" using True assms(3) by simp
  ultimately have "- 1 / hp var * ln (1 / ?m - 1) \<le> 0"
    by (simp add: field_simps)
  then show ?thesis
    using True by (simp add: jax_bool_action_to_param_def min_action_def bool_threshold_def Let_def)
qed

lemma clip_above_threshold:
  assumes "lo \<le> thr" "jnp_clip y lo hi > thr"
  shows "y > thr"
  using assms by (auto simp: jnp_clip_def min_def max_def split: if_splits)

lemma step_active_false_noop:
  assumes "\<forall>var. ranges env var = ''bool'' \<longrightarrow> \<not> noop env var"
  shows "step_active env ps =
         length (filter (\<lambda>x. x > bool_threshold env)
                   (concat (map snd (filter (\<lambda>(var, param). ranges env var = ''bool'') ps))))"
  using assms by (induction ps) (auto simp: step_active_def)

lemma sorting_scores_false_noop:
  assumes "\<forall>var. ranges env var = ''bool'' \<longrightarrow> \<not> noop env var"
  shows "sorting_scores env ps = map snd (filter (\<lambda>(var, param). ranges env var = ''bool'') ps)"
  using assms by (induction ps) (auto simp: sorting_scores_def)


lemma shifted_entries_above_threshold:
  assumes lo: "\<And>var. jax_bool_action_to_param env var (min_action env) hp \<le> thr"
    and sp: "kth - thr \<le> surplus"
  shows "length (filter (\<lambda>x. thr < x)
           (concat (map snd (filter (\<lambda>(var, param). ranges env var = ''bool'')
              (map (\<lambda>(var, param).
                      if ranges env var = ''bool'' then
                        (var, jax_project_bool_to_box env var (map (\<lambda>x. x - surplus) param) hp)
                      else (var, param)) ps)))))
       \<le> length (filter (\<lambda>x. kth < x)
           (concat (map snd (filter (\<lambda>(var, param). ranges env var = ''bool'') ps))))"
proof (induction ps)
  case Nil
  then show ?case by simp
next
  case (Cons p ps)
  obtain var param where p: "p = (var, param)" by (cases p)
  show ?case
  proof (cases "ranges env var = ''bool''")
    case False
    then show ?thesis using Cons.IH by (simp add: p)
  next
    case True
    let ?lo = "jax_bool_action_to_param env var (min_action env) hp"
    let ?hi = "jax_bool_action_to_param env var (max_action env) hp"
    have box: "jax_project_bool_to_box env var (map (\<lambda>x. x - surplus) param) hp
               = map (\<lambda>x. jnp_clip (x - surplus) ?lo ?hi) param"
      by (simp add: jax_project_bool_to_box_def Let_def comp_def)
    have "length (filter (\<lambda>x. thr < x) (map (\<lambda>x. jnp_clip (x - surplus) ?lo ?hi) param))
          \<le> length (filter (\<lambda>x. kth < x) param)"
    proof (rule length_filter_map_le)
      fix x assume "thr < jnp_clip (x - surplus) ?lo ?hi"
      then have "thr < x - surplus"
        using clip_above_threshold[OF lo] by blast
      then show "kth < x" using sp by simp
    qed
    then show ?thesis using Cons.IH True by (simp add: p box)
  qed
qed

lemma sorting_project_step_bound:
  assumes fn: "\<forall>var. ranges env var = ''bool'' \<longrightarrow> \<not> noop env var"
    and m: "0 < min_action_prob env" "min_action_prob env \<le> 1 / 2"
    and w: "wrap_sigmoid env \<longrightarrow> (\<forall>var. 0 < hp var)"
    and k: "0 \<le> allowed_actions env"
    and pr: "jax_wrapped_sorting_project env ps hp = Inr (new_ps, ok)"
  shows "int (step_active env new_ps) \<le> allowed_actions env \<and> ok \<and> map fst new_ps = map fst ps"
proof -
  let ?bool = "\<lambda>(var, param :: real list). ranges env var = ''bool''"
  let ?xs = "concat (sorting_scores env ps)"
  let ?d = "rev (sort ?xs)"
  let ?thr = "bool_threshold env"
  have ne: "sorting_scores env ps \<noteq> []"
    using pr by (auto simp: jax_wrapped_sorting_project_def Let_def split: if_splits)
  obtain kth where ix: "array_index ?d (allowed_actions env) = Inr kth"
    using pr ne by (auto simp: jax_wrapped_sorting_project_def Let_def split: sum.splits)
  have kl: "nat (allowed_actions env) < length ?xs" and kth: "kth = ?d ! nat (allowed_actions env)"
    using ix k by (auto simp: array_index_def split: if_splits)
  let ?surplus = "max (kth - ?thr) 0"
  let ?g = "\<lambda>(var, param).
              if ranges env var = ''bool'' then
                (var, jax_project_bool_to_box env var (map (\<lambda>x. x - ?surplus) param) hp)
              else (var, param)"
  have np: "new_ps = map ?g ps" and ok: "ok"
    using pr ne ix fn
    by (auto simp: jax_wrapped_sorting_project_def Let_def intro!: map_cong)
  have keys: "map fst new_ps = map fst ps"
    unfolding np by (induction ps) (auto split: prod.splits)
  have lo: "\<And>var. jax_bool_action_to_param env var (min_action env) hp \<le> ?thr"
    using box_lower_le_threshold[OF m] w by blast
  have "step_active env new_ps =
          length (filter (\<lambda>x. ?thr < x) (concat (map snd (filter ?bool (map ?g ps)))))"
    using step_active_false_noop[OF fn, of new_ps] np by simp
  also have "\<dots> \<le> length (filter (\<lambda>x. kth < x) (concat (map snd (filter ?bool ps))))"
    by (rule shifted_entries_above_threshold[OF lo]) simp
  also have "\<dots> = length (filter (\<lambda>x. ?d ! nat (allowed_actions env) < x) ?xs)"
    using sorting_scores_false_noop[OF fn, of ps] kth by simp
  also have "\<dots> \<le> nat (allowed_actions env)"
    by (rule filter_above_kth[OF kl])
  finally have "int (step_active env new_ps) \<le> allowed_actions env"
    using k by simp
  then show ?thesis using ok keys by simp
qed


lemma sequence_results_Inr:
  assumes "sequence_results rs = Inr xs"
  shows "length xs = length rs \<and> (\<forall>i<length rs. rs ! i = Inr (xs ! i))"
  using assms
proof (induction rs arbitrary: xs)
  case Nil
  then show ?case by simp
next
  case (Cons r rs)
  then obtain x where r: "r = Inr x" by (cases r) auto
  then obtain ys where ys: "sequence_results rs = Inr ys" "xs = x # ys"
    using Cons.prems by (auto split: sum.splits)
  from Cons.IH[OF ys(1)] have ih: "length ys = length rs" "\<forall>i<length rs. rs ! i = Inr (ys ! i)"
    by simp_all
  have "(r # rs) ! i = Inr (xs ! i)" if "i < length (r # rs)" for i
    using that ih r ys(2) by (cases i) auto
  then show ?case using ih ys(2) by simp
qed

lemma predict_test_active:
  "active_entries env (jax_wrapped_slp_predict_test env prm hp t) = step_active env (param_step prm t)"
proof (induction prm)
  case Nil
  then show ?case
    by (simp add: jax_wrapped_slp_predict_test_def step_active_def param_step_def)
next
  case (Cons p prm)
  obtain var rows where p: "p = (var, rows)" by (cases p)
  have pt: "jax_wrapped_slp_predict_test env (p # prm) hp t =
              hd (jax_wrapped_slp_predict_test env [p] hp t) # jax_wrapped_slp_predict_test env prm hp t"
    by (simp add: jax_wrapped_slp_predict_test_def)
  have ps: "param_step (p # prm) t = (var, rows ! t) # param_step prm t"
    by (simp add: param_step_def p)
  have sa: "step_active env ((var, rows ! t) # param_step prm t) =
           (if ranges env var = ''bool''
            then length (filter (\<lambda>x. (x > bool_threshold env) \<noteq> noop env var) (rows ! t))
            else 0) + step_active env (param_step prm t)"
    by (simp add: step_active_def)
  show ?case
    unfolding pt ps sa using Cons.IH
    by (simp add: jax_wrapped_slp_predict_test_def p Let_def comp_def)
qed

lemma param_step_stack:
  assumes "t < length steps" "map fst (steps ! t) = map fst prm"
  shows "param_step (stack_steps prm steps) t = steps ! t"
proof -
  have len: "length (steps ! t) = length prm"
    using assms(2) by (metis length_map)
  have "param_step (stack_steps prm steps) t ! i = steps ! t ! i" if "i < length prm" for i
  proof -
    have "fst (steps ! t ! i) = fst (prm ! i)"
      using assms(2) that len by (metis nth_map)
    then show ?thesis
      using that assms(1) by (simp add: param_step_def stack_steps_def prod_eq_iff)
  qed
  then show ?thesis
    using len by (intro nth_equalityI) (simp_all add: param_step_def stack_steps_def)
qed

lemma keys_param_step [simp]: "map fst (param_step prm t) = map fst prm"
  by (induction prm) (auto simp: param_step_def)

lemma keys_stack_steps [simp]: "map fst (stack_steps prm steps) = map fst prm"
  by (intro nth_equalityI) (simp_all add: stack_steps_def)

lemma sorting_projection_bound_for_false_noop:
  assumes pr: "sorting_project_to_max_constraint env prm hp = Inr (new_prm, converged)"
    and fn: "\<forall>var. ranges env var = ''bool'' \<longrightarrow> \<not> noop env var"
    and m: "0 < min_action_prob env" "min_action_prob env \<le> 1 / 2"
    and w: "wrap_sigmoid env \<longrightarrow> (\<forall>var. 0 < hp var)"
    and k: "0 \<le> allowed_actions env"
    and t: "t < horizon env"
  shows "int (active_entries env (jax_wrapped_slp_predict_test env new_prm hp t)) \<le> allowed_actions env
       \<and> np_all converged"
proof -
  let ?p1 = "fst (slp_project_to_box env prm hp)"
  let ?rs = "map (\<lambda>t. jax_wrapped_sorting_project env (param_step ?p1 t) hp) [0..<horizon env]"
  have v: "vmap_over_horizon env (jax_wrapped_sorting_project env) ?p1 hp = Inr (new_prm, converged)"
    using pr by (simp add: sorting_project_to_max_constraint_def split: prod.splits)
  then obtain results where res: "sequence_results ?rs = Inr results"
    and np: "new_prm = stack_steps ?p1 (map fst results)"
    and cv: "converged = map snd results"
    by (auto simp: vmap_over_horizon_def split: sum.splits)
  from sequence_results_Inr[OF res]
  have len: "length results = horizon env"
    and each: "\<forall>i<horizon env. jax_wrapped_sorting_project env (param_step ?p1 i) hp = Inr (results ! i)"
    by auto
  have step: "int (step_active env (fst (results ! i))) \<le> allowed_actions env \<and> snd (results ! i)
              \<and> map fst (fst (results ! i)) = map fst ?p1" if "i < horizon env" for i
  proof -
    have "jax_wrapped_sorting_project env (param_step ?p1 i) hp
            = Inr (fst (results ! i), snd (results ! i))"
      using each that by simp
    from sorting_project_step_bound[OF fn m w k this] show ?thesis by simp
  qed
  have "param_step new_prm t = fst (results ! t)"
    unfolding np using t len step[OF t]
    by (subst param_step_stack) simp_all
  then have a: "int (active_entries env (jax_wrapped_slp_predict_test env new_prm hp t))
                \<le> allowed_actions env"
    using step[OF t] by (simp add: predict_test_active)
  have "b" if "b \<in> set converged" for b
  proof -
    from that obtain i where "i < length results" "b = snd (results ! i)"
      unfolding cv by (auto simp: in_set_conv_nth)
    then show ?thesis using step[of i] len by simp
  qed
  then have "\<forall>b \<in> set converged. b" by blast
  then have "np_all converged"
    by (simp add: np_all_def list_all_iff)
  then show ?thesis using a by simp
qed

section \<open>Properties of the action query\<close>









text \<open>
  A value without a dtype makes \<open>get_action\<close> raise an \<open>AttributeError\<close>, also for an
  observation fluent at step 0.
\<close>

lemma get_action_value_without_dtype:
  "get_action example_query 0 0 0 [(''obs'', PyNone)] 0 = Inl (AttributeError ''dtype'')"
  by (simp add: get_action_def example_query_def sublist_Cons_right)

end
